theory Spec2Isabelle
  imports Main "HOL-Library.Sublist"
begin

section \<open>JavaScript strings and arrays\<close>

text \<open>
  Strings are lists of characters, and a character is a code unit below 256 (the Latin-1
  range of Unicode, which holds the ASCII text of tool paths, device names, port numbers and
  command output). The functions below are the string and array methods of the JavaScript
  runtime that \<^verbatim>\<open>AndroidUtils.ts\<close> calls, on such strings.
\<close>

text \<open>\<^verbatim>\<open>s.startsWith(p)\<close>\<close>

fun startsWith :: "string \<Rightarrow> string \<Rightarrow> bool" where
  "startsWith s [] = True"
| "startsWith [] (p # ps) = False"
| "startsWith (c # cs) (p # ps) = (c = p \<and> startsWith cs ps)"

text \<open>\<^verbatim>\<open>s.includes(sub)\<close>\<close>

fun includesStr :: "string \<Rightarrow> string \<Rightarrow> bool" where
  "includesStr [] sub = (sub = [])"
| "includesStr (c # cs) sub = (startsWith (c # cs) sub \<or> includesStr cs sub)"

text \<open>
  \<^verbatim>\<open>s.toLowerCase()\<close>: the letters A to Z are mapped to a to z, and the capital letters
  of the Latin-1 range (U+00C0 to U+00DE without the multiplication sign U+00D7) to the
  small letters 32 places further.
\<close>

definition upperLetters :: string where
  "upperLetters =
     ''ABCDEFGHIJKLMNOPQRSTUVWXYZ'' @
     [CHR 0xC0, CHR 0xC1, CHR 0xC2, CHR 0xC3, CHR 0xC4, CHR 0xC5, CHR 0xC6, CHR 0xC7, CHR 0xC8, CHR 0xC9,
      CHR 0xCA, CHR 0xCB, CHR 0xCC, CHR 0xCD, CHR 0xCE, CHR 0xCF, CHR 0xD0, CHR 0xD1, CHR 0xD2, CHR 0xD3,
      CHR 0xD4, CHR 0xD5, CHR 0xD6, CHR 0xD8, CHR 0xD9, CHR 0xDA, CHR 0xDB, CHR 0xDC, CHR 0xDD, CHR 0xDE]"

definition lowerLetters :: string where
  "lowerLetters =
     ''abcdefghijklmnopqrstuvwxyz'' @
     [CHR 0xE0, CHR 0xE1, CHR 0xE2, CHR 0xE3, CHR 0xE4, CHR 0xE5, CHR 0xE6, CHR 0xE7, CHR 0xE8, CHR 0xE9,
      CHR 0xEA, CHR 0xEB, CHR 0xEC, CHR 0xED, CHR 0xEE, CHR 0xEF, CHR 0xF0, CHR 0xF1, CHR 0xF2, CHR 0xF3,
      CHR 0xF4, CHR 0xF5, CHR 0xF6, CHR 0xF8, CHR 0xF9, CHR 0xFA, CHR 0xFB, CHR 0xFC, CHR 0xFD, CHR 0xFE]"

definition lowerChar :: "char \<Rightarrow> char" where
  "lowerChar c =
     (case map_of (zip upperLetters lowerLetters) c of
        None \<Rightarrow> c
      | Some l \<Rightarrow> l)"

definition toLowerCase :: "string \<Rightarrow> string" where
  "toLowerCase s = map lowerChar s"

text \<open>
  \<^verbatim>\<open>s.trim()\<close>: white space and line terminators are removed at both ends. Below 256
  these are tab, line feed, vertical tab, form feed, carriage return, space and the
  no-break space U+00A0.
\<close>

definition isSpace :: "char \<Rightarrow> bool" where
  "isSpace c =
     (c \<in> set [CHR 0x09, CHR 0x0A, CHR 0x0B, CHR 0x0C, CHR 0x0D, CHR '' '', CHR 0xA0])"

definition trim :: "string \<Rightarrow> string" where
  "trim s = rev (dropWhile isSpace (rev (dropWhile isSpace s)))"

text \<open>
  \<^verbatim>\<open>s.split(sep)\<close> for a separator of one character: the pieces between the
  occurrences of the separator; the empty string gives one empty piece.
\<close>

fun split :: "char \<Rightarrow> string \<Rightarrow> string list" where
  "split sep [] = [[]]"
| "split sep (c # cs) =
     (if c = sep then [] # split sep cs
      else (case split sep cs of
              [] \<Rightarrow> [[c]]
            | p # ps \<Rightarrow> (c # p) # ps))"

text \<open>\<^verbatim>\<open>s.replace(/[_-]/gi, ' ')\<close>\<close>

definition replaceSeparators :: "string \<Rightarrow> string" where
  "replaceSeparators s = map (\<lambda>c. if c = CHR ''_'' \<or> c = CHR ''-'' then CHR '' '' else c) s"

text \<open>A number is printed in decimal (template literals, and the keys of the default sort).\<close>

definition digitChar :: "nat \<Rightarrow> char" where
  "digitChar d = ''0123456789'' ! d"

fun toString :: "nat \<Rightarrow> string" where
  "toString n = (if n < 10 then [digitChar n] else toString (n div 10) @ [digitChar (n mod 10)])"

declare toString.simps [simp del]

text \<open>
  \<^verbatim>\<open>value.match(/\d+/)\<close> followed by \<^verbatim>\<open>Number\<close>: the first run of decimal digits, read as a
  number; \<open>None\<close> when the string has no digit.
\<close>

definition isDigit :: "char \<Rightarrow> bool" where
  "isDigit c = (c \<in> set ''0123456789'')"

definition Number :: "string \<Rightarrow> nat" where
  "Number ds = foldl (\<lambda>a c. 10 * a + ((of_char c :: nat) - 48)) 0 ds"

definition matchDigits :: "string \<Rightarrow> string option" where
  "matchDigits s =
     (case dropWhile (\<lambda>c. \<not> isDigit c) s of
        [] \<Rightarrow> None
      | r \<Rightarrow> Some (takeWhile isDigit r))"

text \<open>
  Comparison of strings by code units, as \<^verbatim>\<open>a < b\<close> on strings and the default order of
  \<^verbatim>\<open>Array.prototype.sort\<close> do it.
\<close>

fun stringLess :: "string \<Rightarrow> string \<Rightarrow> bool" where
  "stringLess [] [] = False"
| "stringLess [] (y # ys) = True"
| "stringLess (x # xs) [] = False"
| "stringLess (x # xs) (y # ys) =
     ((of_char x :: nat) < of_char y \<or> (x = y \<and> stringLess xs ys))"

text \<open>
  \<^verbatim>\<open>Array.prototype.sort(compareFn)\<close> is a stable sort (ECMAScript 2019, Node 12 and later):
  an element is placed before the elements that do not compare smaller than it, and elements
  that compare equal keep their order. Insertion from the right computes that order.
\<close>

fun insertBy :: "('a \<Rightarrow> 'a \<Rightarrow> int) \<Rightarrow> 'a \<Rightarrow> 'a list \<Rightarrow> 'a list" where
  "insertBy cmp x [] = [x]"
| "insertBy cmp x (y # ys) = (if cmp x y \<le> 0 then x # y # ys else y # insertBy cmp x ys)"

definition sortBy :: "('a \<Rightarrow> 'a \<Rightarrow> int) \<Rightarrow> 'a list \<Rightarrow> 'a list" where
  "sortBy cmp xs = foldr (insertBy cmp) xs []"

text \<open>Without a compare function, the elements are compared as strings.\<close>

definition defaultCompare :: "nat \<Rightarrow> nat \<Rightarrow> int" where
  "defaultCompare a b =
     (if stringLess (toString a) (toString b) then - 1
      else if stringLess (toString b) (toString a) then 1 else 0)"

definition sortDefault :: "nat list \<Rightarrow> nat list" where
  "sortDefault xs = sortBy defaultCompare xs"


section \<open>Data model\<close>

text \<open>
  Modelled from the spec: the class \<^verbatim>\<open>Version\<close> of \<^verbatim>\<open>Common.ts\<close> is not part of the
  sources at hand. A version is a major number with an optional minor and an optional patch
  number; \<open>compare\<close> is lexicographic and reads a missing component as zero, \<open>same\<close> holds
  when every component present in both versions is equal, and \<open>sameOrNewer\<close> is
  \<open>compare \<ge> 0\<close>.
\<close>

record Version =
  major :: nat
  minor :: "nat option"
  patch :: "nat option"

definition component :: "nat option \<Rightarrow> nat" where
  "component c = (case c of None \<Rightarrow> 0 | Some n \<Rightarrow> n)"

definition compareNat :: "nat \<Rightarrow> nat \<Rightarrow> int" where
  "compareNat a b = (if a < b then - 1 else if b < a then 1 else 0)"

definition compare :: "Version \<Rightarrow> Version \<Rightarrow> int" where
  "compare a b =
     (if major a \<noteq> major b then compareNat (major a) (major b)
      else if component (minor a) \<noteq> component (minor b)
        then compareNat (component (minor a)) (component (minor b))
      else compareNat (component (patch a)) (component (patch b)))"

definition sameComponent :: "nat option \<Rightarrow> nat option \<Rightarrow> bool" where
  "sameComponent c d = (case (c, d) of (Some x, Some y) \<Rightarrow> x = y | _ \<Rightarrow> True)"

definition same :: "Version \<Rightarrow> Version \<Rightarrow> bool" where
  "same a b =
     (major a = major b \<and> sameComponent (minor a) (minor b) \<and> sameComponent (patch a) (patch b))"

definition sameOrNewer :: "Version \<Rightarrow> Version \<Rightarrow> bool" where
  "sameOrNewer a b = (compare a b \<ge> 0)"

text \<open>
  Modelled from the spec: the classes \<^verbatim>\<open>AndroidPackage\<close>, \<^verbatim>\<open>AndroidPackages\<close> and
  \<^verbatim>\<open>AndroidVirtualDevice\<close> of \<^verbatim>\<open>AndroidTypes.ts\<close> are not part of the sources at hand.
  The records have the fields that \<^verbatim>\<open>AndroidUtils.ts\<close> reads; an inventory is empty when it
  lists no package.
\<close>

record AndroidPackage =
  path :: string
  version :: Version
  description :: string
  platformAPI :: string

record AndroidPackages =
  platforms :: "AndroidPackage list"
  systemImages :: "AndroidPackage list"

definition isEmpty :: "AndroidPackages \<Rightarrow> bool" where
  "isEmpty pkgs = (platforms pkgs = [] \<and> systemImages pkgs = [])"

record AndroidVirtualDevice =
  name :: string
  target :: string
  apiLevel :: Version

text \<open>The Android part of \<^verbatim>\<open>PlatformConfig.androidConfig()\<close>.\<close>

record AndroidConfig =
  minSupportedRuntime :: string
  supportedArchitectures :: "string list"
  supportedImages :: "string list"
  AdbNumRetryAttempts :: int
  AdbRetryAttemptDelay :: nat
  deviceReadinessWaitTime :: nat
  defaultAdbPort :: nat

text \<open>Errors: an \<^verbatim>\<open>SfdxError\<close> with its message, the rejection of a command with the text of
  its error, a file operation that throws, an exception of a parser, and the rejection of
  \<^verbatim>\<open>promiseWithTimeout\<close> with the key of its message and the device it names.\<close>

datatype error =
    SfdxError string
  | CommandError string
  | FileError string
  | ParseError string
  | TimeoutError string string

section \<open>The environment\<close>

text \<open>
  A command resolves with its two output streams or rejects with an error, whose text is
  what the string concatenation in \<^verbatim>\<open>executeAdbCommandWithRetry\<close> makes of it.
\<close>

record cmd_output =
  stdout :: string
  stderr :: string

datatype cmd_result = Rejected string | Resolved cmd_output

text \<open>
  Every interaction with the outside is an event: \<^verbatim>\<open>CommonUtils.executeCommandAsync\<close>,
  \<^verbatim>\<open>childProcess.spawn\<close>, \<^verbatim>\<open>CommonUtils.delay\<close>, \<^verbatim>\<open>fs.readFileSync\<close> and
  \<^verbatim>\<open>fs.writeFileSync\<close>. The state of a run is the list of the events so far, oldest first.
  Log and status messages have no influence on the control flow and are left out.
\<close>

datatype event =
    Exec string
  | Spawn string
  | Delay nat
  | ReadFile string
  | WriteFile string string

text \<open>
  What is outside of \<^verbatim>\<open>AndroidUtils.ts\<close>: the configuration, the memoised tool paths and
  SDK root, the platform, the helpers of other modules, and the behaviour of the outside
  world. The world answers an event in view of the whole history, which ends with that
  event: \<open>run\<close> is the outcome of a command, \<open>deadlinePassed t\<close> tells whether the timeout
  \<open>t\<close> of \<^verbatim>\<open>promiseWithTimeout\<close> expired before the command settled, \<open>readFileSync\<close> is
  the content of the file read (\<open>None\<close> when reading throws).

  \<open>adbShellCommand\<close>, \<open>emulatorCommand\<close> and \<open>sdkRootLocation\<close> are what
  \<^verbatim>\<open>getAdbShellCommand()\<close>, \<^verbatim>\<open>getEmulatorCommand()\<close> and \<^verbatim>\<open>getAndroidSdkRoot()\<close> return; these
  three functions cannot throw. The path of the AVD manager is computed by
  \<^verbatim>\<open>getAndroidCmdLineToolsBin\<close>, which lists a directory and can throw, so here
  \<open>avdManagerCommand\<close> and \<open>androidCmdLineToolsBin\<close> are the two static fields of that name as
  they are when a function is entered, the empty string standing for a field that is not
  assigned yet (\<^verbatim>\<open>!field\<close> holds of \<^verbatim>\<open>undefined\<close> and of the empty string alike).
  \<open>existsSync t p\<close> and \<open>readdirSync t p\<close> are the answers of \<^verbatim>\<open>fs.existsSync\<close> and
  \<^verbatim>\<open>fs.readdirSync\<close> for the path \<open>p\<close> after the history \<open>t\<close>; the second is \<open>None\<close> when
  the call throws (the path is not a directory, or it may not be read).
\<close>

record sys =
  config :: AndroidConfig
  adbShellCommand :: string
  emulatorCommand :: string
  avdManagerCommand :: string
  androidCmdLineToolsBin :: string
  sdkRootLocation :: "string option"
  windows :: bool
  versionFrom :: "string \<Rightarrow> error + Version"
  parseRawString :: "string \<Rightarrow> error + AndroidVirtualDevice list"
  matchPattern :: "string \<Rightarrow> string \<Rightarrow> bool"
  pathJoin :: "string list \<Rightarrow> string"
  resolveUserHomePath :: "string \<Rightarrow> string"
  run :: "event list \<Rightarrow> cmd_result"
  deadlinePassed :: "nat \<Rightarrow> event list \<Rightarrow> bool"
  readFileSync :: "event list \<Rightarrow> string option"
  existsSync :: "event list \<Rightarrow> string \<Rightarrow> bool"
  readdirSync :: "event list \<Rightarrow> string \<Rightarrow> string list option"

text \<open>
  An asynchronous function takes the history and returns its result, or the error it
  rejects with, and the extended history.
\<close>

type_synonym 'a io = "event list \<Rightarrow> (error + 'a) \<times> event list"

definition resolve :: "'a \<Rightarrow> 'a io" where
  "resolve x tr = (Inr x, tr)"

definition reject :: "error \<Rightarrow> 'a io" where
  "reject e tr = (Inl e, tr)"

text \<open>\<^verbatim>\<open>p.then(f)\<close>, and \<^verbatim>\<open>await\<close> followed by the rest of the function.\<close>

definition andThen :: "'a io \<Rightarrow> ('a \<Rightarrow> 'b io) \<Rightarrow> 'b io" where
  "andThen p f tr = (case p tr of (Inl e, tr') \<Rightarrow> (Inl e, tr') | (Inr x, tr') \<Rightarrow> f x tr')"

text \<open>\<^verbatim>\<open>p.catch(h)\<close>, and \<^verbatim>\<open>try { ... } catch (error) { ... }\<close>.\<close>

definition orElse :: "'a io \<Rightarrow> (error \<Rightarrow> 'a io) \<Rightarrow> 'a io" where
  "orElse p h tr = (case p tr of (Inl e, tr') \<Rightarrow> h e tr' | (Inr x, tr') \<Rightarrow> (Inr x, tr'))"

definition executeCommandAsync :: "sys \<Rightarrow> string \<Rightarrow> cmd_output io" where
  "executeCommandAsync S command tr =
     (let tr' = tr @ [Exec command]
      in (case run S tr' of
            Rejected e \<Rightarrow> (Inl (CommandError e), tr')
          | Resolved result \<Rightarrow> (Inr result, tr')))"

definition delay :: "nat \<Rightarrow> unit io" where
  "delay ms tr = (Inr (), tr @ [Delay ms])"

definition spawn :: "string \<Rightarrow> unit io" where
  "spawn command tr = (Inr (), tr @ [Spawn command])"

definition readFile :: "sys \<Rightarrow> string \<Rightarrow> string io" where
  "readFile S filePath tr =
     (let tr' = tr @ [ReadFile filePath]
      in (case readFileSync S tr' of
            None \<Rightarrow> (Inl (FileError filePath), tr')
          | Some content \<Rightarrow> (Inr content, tr')))"

definition writeFile :: "string \<Rightarrow> string \<Rightarrow> unit io" where
  "writeFile filePath content tr = (Inr (), tr @ [WriteFile filePath content])"

text \<open>
  Modelled from the spec: \<^verbatim>\<open>CommonUtils.promiseWithTimeout\<close> is not part of the sources at
  hand. Exceeding the deadline rejects with a named timeout error and leaves the underlying
  command running; otherwise the outcome is that of the command.
\<close>

definition promiseWithTimeout :: "sys \<Rightarrow> nat \<Rightarrow> 'a io \<Rightarrow> error \<Rightarrow> 'a io" where
  "promiseWithTimeout S timeout promise timeoutError tr =
     (case promise tr of
        (r, tr') \<Rightarrow> if deadlinePassed S timeout tr' then (Inl timeoutError, tr') else (r, tr'))"


section \<open>AndroidUtils\<close>

subsection \<open>Installed packages\<close>

text \<open>
  \<^verbatim>\<open>packageWithRequiredEmulatorImages\<close>: architectures in the outer loop, image flavours in
  the middle, installed system images in the inner loop; the first image whose path matches
  the pattern \<^verbatim>\<open>(platformAPI;image;architecture)\<close> wins. \<open>matchPattern S subject pattern\<close>
  is \<^verbatim>\<open>subject.match(pattern) !== null\<close>.
\<close>

definition imagePattern :: "string \<Rightarrow> string \<Rightarrow> string \<Rightarrow> string" where
  "imagePattern api imageName architecture =
     ''('' @ api @ '';'' @ imageName @ '';'' @ architecture @ '')''"

definition packageWithRequiredEmulatorImages ::
  "sys \<Rightarrow> AndroidPackage list \<Rightarrow> AndroidPackage \<Rightarrow> AndroidPackage option" where
  "packageWithRequiredEmulatorImages S installedSystemImages androidPackage =
     List.find (\<lambda>img. True)
       (concat (map (\<lambda>architecture.
          concat (map (\<lambda>imageName.
            filter (\<lambda>img. matchPattern S (path img)
                              (imagePattern (platformAPI androidPackage) imageName architecture))
              installedSystemImages)
            (supportedImages (config S))))
          (supportedArchitectures (config S))))"

text \<open>
  \<^verbatim>\<open>fetchInstalledPackages\<close> resolves with the package cache, which the first listing fills
  and later calls return unchanged, or rejects when the SDK root is not set. The argument
  \<open>installed\<close> below is the outcome of that call; it is the same at every call of one
  resolution.
\<close>

definition minRuntimeMessage :: "sys \<Rightarrow> string \<Rightarrow> string" where
  "minRuntimeMessage S msg =
     msg @ '' Minimum supported Android API package version is '' @ minSupportedRuntime (config S)"

definition fetchAllAvailableApiPackages ::
  "sys \<Rightarrow> error + AndroidPackages \<Rightarrow> bool \<Rightarrow> error + AndroidPackage list" where
  "fetchAllAvailableApiPackages S installed mustHaveSupportedEmulatorImages =
     (case versionFrom S (minSupportedRuntime (config S)) of
        Inl e \<Rightarrow> Inl e
      | Inr minSupported \<Rightarrow>
     (case installed of
        Inl e \<Rightarrow> Inl e
      | Inr allPackages \<Rightarrow>
          if isEmpty allPackages
          then Inl (SfdxError (minRuntimeMessage S ''No Android API packages are installed.''))
          else
            (let matchingPlatforms =
                   filter (\<lambda>pkg. sameOrNewer (version pkg) minSupported) (platforms allPackages)
             in if length matchingPlatforms < 1
                then Inl (SfdxError
                       (minRuntimeMessage S ''Could not locate a supported Android API package.''))
                else
                  (let results =
                         (if mustHaveSupportedEmulatorImages
                          then filter (\<lambda>pkg. packageWithRequiredEmulatorImages S
                                               (systemImages allPackages) pkg \<noteq> None)
                                 matchingPlatforms
                          else matchingPlatforms)
                   in Inr (sortBy (\<lambda>a b. compare (version a) (version b) * - 1) results)))))"

definition fetchSupportedAndroidAPIPackage ::
  "sys \<Rightarrow> error + AndroidPackages \<Rightarrow> string option \<Rightarrow> error + AndroidPackage" where
  "fetchSupportedAndroidAPIPackage S installed level =
     (case (case level of
              None \<Rightarrow> Inr None
            | Some l \<Rightarrow> if l = [] then Inr None else map_sum id Some (versionFrom S l)) of
        Inl e \<Rightarrow> Inl e
      | Inr targetRuntime \<Rightarrow>
     (case fetchAllAvailableApiPackages S installed True of
        Inl e \<Rightarrow> Inl e
      | Inr packages \<Rightarrow>
          (let matchingPlatforms =
                 (case targetRuntime of
                    None \<Rightarrow> packages
                  | Some t \<Rightarrow> filter (\<lambda>pkg. same (version pkg) t) packages)
           in if targetRuntime \<noteq> None \<and> length matchingPlatforms < 1
              then Inl (SfdxError
                     (''Could not locate Android API package (with matching emulator images) for API level ''
                      @ (case level of None \<Rightarrow> [] | Some l \<Rightarrow> l) @ ''.''))
              else if length matchingPlatforms < 1
              then Inl (SfdxError (minRuntimeMessage S
                     ''Could not locate a supported Android API package with matching emulator images.''))
              else Inr (hd matchingPlatforms))))"

subsection \<open>Commands on a device\<close>

definition adbCmd :: "sys \<Rightarrow> nat \<Rightarrow> string \<Rightarrow> string" where
  "adbCmd S portNumber command =
     adbShellCommand S @ '' -s emulator-'' @ toString portNumber @ '' '' @ command"

text \<open>
  One attempt of \<^verbatim>\<open>executeAdbCommandWithRetry\<close>: \<open>err\<close> is the error caught, as text, and
  \<open>result\<close> the output, which stays empty when the command rejects; \<open>allOutput\<close> joins the
  error, the error stream and the output stream, each non-empty stream after a line feed.
\<close>

definition attemptErr :: "cmd_result \<Rightarrow> string" where
  "attemptErr a = (case a of Rejected e \<Rightarrow> e | Resolved r \<Rightarrow> [])"

definition attemptResult :: "cmd_result \<Rightarrow> cmd_output" where
  "attemptResult a =
     (case a of Rejected e \<Rightarrow> \<lparr>stdout = [], stderr = []\<rparr> | Resolved r \<Rightarrow> r)"

definition allOutputOf :: "cmd_result \<Rightarrow> string" where
  "allOutputOf a =
     attemptErr a
     @ (if stderr (attemptResult a) \<noteq> [] then CHR 0x0A # stderr (attemptResult a) else [])
     @ (if stdout (attemptResult a) \<noteq> [] then CHR 0x0A # stdout (attemptResult a) else [])"

definition hasErrorMarker :: "string \<Rightarrow> bool" where
  "hasErrorMarker allOutput = (allOutput \<noteq> [] \<and> includesStr (toLowerCase allOutput) ''error:'')"

text \<open>
  The loop \<^verbatim>\<open>for (let i = 0; i <= numRetries; i++)\<close>, with the loop counter and the variable
  \<^verbatim>\<open>allOutput\<close>, which every attempt assigns, as arguments.
\<close>

function executeAdbCommandWithRetry_loop ::
  "sys \<Rightarrow> string \<Rightarrow> int \<Rightarrow> nat \<Rightarrow> int \<Rightarrow> string \<Rightarrow> string io" where
  "executeAdbCommandWithRetry_loop S adbCommand numRetries retryDelay i allOutput tr =
     (if i \<le> numRetries
      then
        (if hasErrorMarker (allOutputOf (run S (tr @ [Exec adbCommand])))
         then executeAdbCommandWithRetry_loop S adbCommand numRetries retryDelay (i + 1)
                (allOutputOf (run S (tr @ [Exec adbCommand])))
                (if i < numRetries then tr @ [Exec adbCommand] @ [Delay retryDelay]
                 else tr @ [Exec adbCommand])
         else (Inr (stdout (attemptResult (run S (tr @ [Exec adbCommand])))),
               tr @ [Exec adbCommand]))
      else (Inl (SfdxError allOutput), tr))"
  by pat_completeness auto
termination
  by (relation "measure (\<lambda>(S, adbCommand, numRetries, retryDelay, i, allOutput, tr).
                            nat (numRetries + 1 - i))") auto

declare executeAdbCommandWithRetry_loop.simps [simp del]

definition executeAdbCommandWithRetry :: "sys \<Rightarrow> string \<Rightarrow> nat \<Rightarrow> int \<Rightarrow> nat \<Rightarrow> string io" where
  "executeAdbCommandWithRetry S command portNumber numRetries retryDelay =
     executeAdbCommandWithRetry_loop S (adbCmd S portNumber command) numRetries retryDelay 0 []"

text \<open>The call with the default number of retries and the default delay.\<close>

definition executeAdbCommandWithRetryDefault :: "sys \<Rightarrow> string \<Rightarrow> nat \<Rightarrow> string io" where
  "executeAdbCommandWithRetryDefault S command portNumber =
     executeAdbCommandWithRetry S command portNumber
       (AdbNumRetryAttempts (config S)) (AdbRetryAttemptDelay (config S))"

definition executeAdbCommand :: "sys \<Rightarrow> string \<Rightarrow> nat \<Rightarrow> string io" where
  "executeAdbCommand S command portNumber =
     executeAdbCommandWithRetry S command portNumber 0 (AdbRetryAttemptDelay (config S))"

subsection \<open>Ports\<close>

definition firstLine :: "string \<Rightarrow> string" where
  "firstLine s = trim (hd (split (CHR 0x0A) s))"

definition portOfLine :: "string \<Rightarrow> nat" where
  "portOfLine line = (case matchDigits line of None \<Rightarrow> 0 | Some ds \<Rightarrow> Number ds)"

definition getAllCurrentlyUsedAdbPorts :: "sys \<Rightarrow> nat list io" where
  "getAllCurrentlyUsedAdbPorts S =
     andThen (executeCommandAsync S (adbShellCommand S @ '' devices''))
       (\<lambda>result. resolve
          (if stdout result \<noteq> []
           then map portOfLine
                  (filter (\<lambda>avd. startsWith (toLowerCase avd) ''emulator'')
                     (split (CHR 0x0A) (stdout result)))
           else []))"

definition getNextAvailableAdbPort :: "sys \<Rightarrow> nat io" where
  "getNextAvailableAdbPort S =
     andThen (getAllCurrentlyUsedAdbPorts S)
       (\<lambda>ports. resolve
          (if length ports > 0 then hd (rev (sortDefault ports)) + 2
           else defaultAdbPort (config S)))"

definition fetchEmulatorNameFromPort :: "sys \<Rightarrow> nat \<Rightarrow> string io" where
  "fetchEmulatorNameFromPort S portNumber =
     andThen (executeAdbCommand S ''emu avd name'' portNumber) (\<lambda>result. resolve (firstLine result))"

fun emulatorHasPort_loop :: "sys \<Rightarrow> string \<Rightarrow> nat list \<Rightarrow> nat option io" where
  "emulatorHasPort_loop S emulatorName [] = resolve None"
| "emulatorHasPort_loop S emulatorName (port # ports) =
     andThen (fetchEmulatorNameFromPort S port)
       (\<lambda>avdName. if avdName = emulatorName then resolve (Some port)
                  else emulatorHasPort_loop S emulatorName ports)"

definition emulatorHasPort :: "sys \<Rightarrow> string \<Rightarrow> nat option io" where
  "emulatorHasPort S emulatorName =
     orElse (andThen (getAllCurrentlyUsedAdbPorts S) (emulatorHasPort_loop S emulatorName))
       (\<lambda>error. resolve None)"


subsection \<open>Virtual devices\<close>

definition displayName :: "string \<Rightarrow> string" where
  "displayName s = trim (replaceSeparators s)"

fun findAvd :: "string \<Rightarrow> string \<Rightarrow> string list \<Rightarrow> string option" where
  "findAvd emulatorName emulatorDisplayName [] = None"
| "findAvd emulatorName emulatorDisplayName (avd # listOfAVDs) =
     (if avd = emulatorName \<or> displayName avd = emulatorDisplayName then Some (trim avd)
      else findAvd emulatorName emulatorDisplayName listOfAVDs)"

definition resolveEmulatorImage :: "sys \<Rightarrow> string \<Rightarrow> string option io" where
  "resolveEmulatorImage S emulatorName =
     orElse
       (andThen (executeCommandAsync S (emulatorCommand S @ '' -list-avds''))
          (\<lambda>result. resolve
             (findAvd emulatorName (displayName emulatorName) (split (CHR 0x0A) (stdout result)))))
       (\<lambda>error. resolve None)"

text \<open>
  \<^verbatim>\<open>getAndroidCmdLineToolsBin\<close>: the memoised path if there is one; otherwise the directory
  \<^verbatim>\<open>cmdline-tools\<close> of the SDK root and, when it exists and is not empty, the \<^verbatim>\<open>bin\<close>
  directory of the entry that comes first under \<^verbatim>\<open>content.sort((a, b) => (a > b ? -1 : 1))\<close>.
  The entries of a directory are distinct, and on distinct names this compare function is
  a consistent order. \<^verbatim>\<open>fs.readdirSync\<close> is not guarded: its exception leaves the function.
\<close>

definition descending :: "string \<Rightarrow> string \<Rightarrow> int" where
  "descending a b = (if stringLess b a then - 1 else 1)"

definition getAndroidCmdLineToolsBin :: "sys \<Rightarrow> string io" where
  "getAndroidCmdLineToolsBin S tr =
     (if androidCmdLineToolsBin S \<noteq> [] then (Inr (androidCmdLineToolsBin S), tr)
      else (let toolsDir = pathJoin S [case sdkRootLocation S of None \<Rightarrow> [] | Some root \<Rightarrow> root,
                                       ''cmdline-tools'']
            in if existsSync S tr toolsDir
               then (case readdirSync S tr toolsDir of
                       None \<Rightarrow> (Inl (FileError toolsDir), tr)
                     | Some content \<Rightarrow>
                         if content \<noteq> []
                         then (Inr (pathJoin S [toolsDir, hd (sortBy descending content), ''bin'']), tr)
                         else (Inr toolsDir, tr))
               else (Inr toolsDir, tr)))"

text \<open>
  \<^verbatim>\<open>getAvdManagerCommand\<close>: the memoised command, or \<^verbatim>\<open>avdmanager\<close> in that directory.
  Both functions assign what they have computed to their static field. No function below
  evaluates \<^verbatim>\<open>getAvdManagerCommand()\<close> more than once in a call, so within a call the
  fields are not read again after the assignment.
\<close>

definition getAvdManagerCommand :: "sys \<Rightarrow> string io" where
  "getAvdManagerCommand S =
     (if avdManagerCommand S \<noteq> [] then resolve (avdManagerCommand S)
      else andThen (getAndroidCmdLineToolsBin S)
             (\<lambda>toolsBin. resolve (pathJoin S [toolsBin, ''avdmanager''])))"

text \<open>
  \<^verbatim>\<open>fetchEmulators\<close> is an \<^verbatim>\<open>async\<close> function. The argument of \<^verbatim>\<open>executeCommandAsync\<close> is
  evaluated first, before \<^verbatim>\<open>then\<close> and \<^verbatim>\<open>catch\<close> are attached: an exception of
  \<^verbatim>\<open>getAvdManagerCommand()\<close> rejects the promise that \<^verbatim>\<open>fetchEmulators\<close> returns. The variable
  \<^verbatim>\<open>devices\<close> is assigned after the parser has returned, and nothing can throw after that,
  so the handler of \<^verbatim>\<open>catch\<close> finds it empty.
\<close>

definition fetchEmulators :: "sys \<Rightarrow> AndroidVirtualDevice list io" where
  "fetchEmulators S =
     andThen (getAvdManagerCommand S)
       (\<lambda>command.
          orElse
            (andThen (executeCommandAsync S (command @ '' list avd''))
               (\<lambda>result.
                  if stdout result \<noteq> []
                  then (case parseRawString S (stdout result) of
                          Inl e \<Rightarrow> reject e
                        | Inr devices \<Rightarrow> resolve devices)
                  else resolve []))
            (\<lambda>error. resolve []))"

definition fetchEmulator :: "sys \<Rightarrow> string \<Rightarrow> AndroidVirtualDevice option io" where
  "fetchEmulator S emulatorName =
     andThen (resolveEmulatorImage S emulatorName)
       (\<lambda>resolvedEmulator.
          (case resolvedEmulator of
             None \<Rightarrow> resolve None
           | Some resolved \<Rightarrow>
               if resolved = [] then resolve None
               else andThen (fetchEmulators S)
                      (\<lambda>emulators. resolve (List.find (\<lambda>emulator. name emulator = resolved) emulators))))"

subsection \<open>The life cycle of an emulator\<close>

definition deviceId :: "nat \<Rightarrow> string" where
  "deviceId portNumber = ''emulator-'' @ toString portNumber"

definition waitUntilDeviceIsReady :: "sys \<Rightarrow> nat \<Rightarrow> unit io" where
  "waitUntilDeviceIsReady S portNumber =
     (let quote = (if windows S then [CHR 0x22] else [CHR 0x27]);
          command = ''wait-for-device shell '' @ quote
                    @ ''while ['' @ ''[ -z $(getprop sys.boot_completed) ]'' @ '']; do sleep 1; done;''
                    @ quote
      in andThen
           (promiseWithTimeout S (deviceReadinessWaitTime (config S))
              (executeAdbCommand S command portNumber)
              (TimeoutError ''bootTimeOut'' (deviceId portNumber)))
           (\<lambda>r. resolve ()))"

definition waitUntilDeviceIsPoweredOff :: "sys \<Rightarrow> nat \<Rightarrow> unit io" where
  "waitUntilDeviceIsPoweredOff S portNumber =
     (let command =
            (if windows S
             then ''powershell -Command '' @ [CHR 0x22] @ ''while($(adb devices | findstr ''
                  @ deviceId portNumber @ '')){ Start-Sleep -s 1 }'' @ [CHR 0x22]
             else ''while ['' @ ''[ -n $(adb devices | grep '' @ deviceId portNumber
                  @ '') ]'' @ '']; do sleep 1; done;'')
      in andThen
           (promiseWithTimeout S (deviceReadinessWaitTime (config S))
              (executeCommandAsync S command)
              (TimeoutError ''powerOffTimeOut'' (deviceId portNumber)))
           (\<lambda>r. delay 5000))"

definition stopEmulator :: "sys \<Rightarrow> nat \<Rightarrow> bool \<Rightarrow> unit io" where
  "stopEmulator S portNumber waitForPowerOff =
     andThen (executeAdbCommand S ''shell reboot -p'' portNumber)
       (\<lambda>r. if waitForPowerOff then waitUntilDeviceIsPoweredOff S portNumber else resolve ())"

definition rebootEmulator :: "sys \<Rightarrow> nat \<Rightarrow> bool \<Rightarrow> unit io" where
  "rebootEmulator S portNumber waitForBoot =
     andThen (executeAdbCommand S ''shell reboot'' portNumber)
       (\<lambda>r. if waitForBoot then waitUntilDeviceIsReady S portNumber else resolve ())"

definition isEmulatorSystemWritable :: "sys \<Rightarrow> nat \<Rightarrow> bool io" where
  "isEmulatorSystemWritable S portNumber =
     orElse
       (andThen (executeAdbCommand S ''emu avd path'' portNumber)
          (\<lambda>result.
             (let emuPath = firstLine result;
                  paramFile = pathJoin S [emuPath, ''emu-launch-params.txt'']
              in andThen (readFile S paramFile)
                   (\<lambda>launchParams. resolve (includesStr launchParams ''-writable-system'')))))
       (\<lambda>error. resolve False)"

text \<open>
  The second half of \<^verbatim>\<open>startEmulator\<close>: the emulator process is spawned detached, and the
  boot is awaited on request.
\<close>

definition launchEmulator :: "sys \<Rightarrow> string \<Rightarrow> nat \<Rightarrow> bool \<Rightarrow> bool \<Rightarrow> nat io" where
  "launchEmulator S resolvedEmulatorName resolvedPortNumber writable waitForBoot =
     andThen
       (spawn (emulatorCommand S @ '' @'' @ resolvedEmulatorName @ '' -port ''
               @ toString resolvedPortNumber @ (if writable then '' -writable-system'' else [])))
       (\<lambda>child.
          andThen (if waitForBoot then waitUntilDeviceIsReady S resolvedPortNumber else resolve ())
            (\<lambda>r. resolve resolvedPortNumber))"

text \<open>
  \<^verbatim>\<open>port ? port : await getNextAvailableAdbPort()\<close>: the port found is used unless it is
  \<^verbatim>\<open>null\<close> or zero.
\<close>

definition startEmulator :: "sys \<Rightarrow> string \<Rightarrow> bool \<Rightarrow> bool \<Rightarrow> nat io" where
  "startEmulator S emulatorName writable waitForBoot =
     andThen (resolveEmulatorImage S emulatorName)
       (\<lambda>resolvedEmulator.
          (case resolvedEmulator of
             None \<Rightarrow> reject (SfdxError (''Invalid emulator: '' @ emulatorName))
           | Some resolvedEmulatorName \<Rightarrow>
               andThen (emulatorHasPort S resolvedEmulatorName)
                 (\<lambda>port.
                    andThen (case port of
                               None \<Rightarrow> getNextAvailableAdbPort S
                             | Some p \<Rightarrow> if p \<noteq> 0 then resolve p else getNextAvailableAdbPort S)
                      (\<lambda>resolvedPortNumber.
                         if port = Some resolvedPortNumber
                         then andThen (isEmulatorSystemWritable S resolvedPortNumber)
                                (\<lambda>isWritable.
                                   if writable = False \<or> isWritable = True
                                   then resolve resolvedPortNumber
                                   else andThen (stopEmulator S resolvedPortNumber True)
                                          (\<lambda>r. launchEmulator S resolvedEmulatorName
                                                  resolvedPortNumber writable waitForBoot))
                         else launchEmulator S resolvedEmulatorName resolvedPortNumber
                                writable waitForBoot))))"

definition mountAsRootWritableSystem :: "sys \<Rightarrow> string \<Rightarrow> nat io" where
  "mountAsRootWritableSystem S emulatorName =
     andThen (startEmulator S emulatorName True True)
       (\<lambda>portNumber.
     andThen (executeAdbCommandWithRetryDefault S ''root'' portNumber)
       (\<lambda>r.
     andThen (fetchEmulator S emulatorName)
       (\<lambda>emulator.
     andThen
       (case emulator of
          None \<Rightarrow>
            reject (SfdxError (''Unable to determine device info: Port = '' @ toString portNumber
                               @ '' , Name = '' @ emulatorName))
        | Some emu \<Rightarrow>
            (case versionFrom S ''29'' of
               Inl e \<Rightarrow> reject e
             | Inr v29 \<Rightarrow>
                 if sameOrNewer (apiLevel emu) v29
                 then
                   andThen (executeAdbCommandWithRetryDefault S ''shell avbctl get-verification''
                              portNumber)
                     (\<lambda>verification.
                   andThen (executeAdbCommandWithRetryDefault S ''shell avbctl get-verity''
                              portNumber)
                     (\<lambda>verity.
                   (let verificationIsAlreadyDisabled = includesStr verification ''disabled'';
                        verityIsAlreadyDisabled = includesStr verity ''disabled''
                    in
                   andThen (if \<not> verificationIsAlreadyDisabled
                            then andThen (executeAdbCommandWithRetryDefault S
                                            ''shell avbctl disable-verification'' portNumber)
                                   (\<lambda>r. resolve ())
                            else resolve ())
                     (\<lambda>r.
                   andThen (if \<not> verityIsAlreadyDisabled
                            then andThen (executeAdbCommandWithRetryDefault S
                                            ''disable-verity'' portNumber)
                                   (\<lambda>r. resolve ())
                            else resolve ())
                     (\<lambda>r.
                   if \<not> verificationIsAlreadyDisabled \<or> \<not> verityIsAlreadyDisabled
                   then andThen (rebootEmulator S portNumber True)
                          (\<lambda>r. andThen (executeAdbCommandWithRetryDefault S ''root'' portNumber)
                                 (\<lambda>r. resolve ()))
                   else resolve ())))))
                 else resolve ()))
       (\<lambda>r.
     andThen (executeAdbCommandWithRetryDefault S ''remount'' portNumber)
       (\<lambda>r. resolve portNumber)))))"

subsection \<open>The configuration file of a device\<close>

text \<open>
  A \<^verbatim>\<open>Map<string, string>\<close> is the list of its entries in insertion order; \<^verbatim>\<open>set\<close> replaces
  the value of a key that is present and appends a new key at the end.
\<close>

type_synonym config_map = "(string \<times> string) list"

fun Map_set :: "config_map \<Rightarrow> string \<Rightarrow> string \<Rightarrow> config_map" where
  "Map_set [] k v = [(k, v)]"
| "Map_set ((k', v') # m) k v = (if k' = k then (k', v) # m else (k', v') # Map_set m k v)"

definition Map_get :: "config_map \<Rightarrow> string \<Rightarrow> string option" where
  "Map_get m k = map_of m k"

definition configFilePath :: "sys \<Rightarrow> string \<Rightarrow> string" where
  "configFilePath S emulatorName =
     resolveUserHomePath S
       (pathJoin S [''~'', ''.android'', ''avd'', emulatorName @ ''.avd'', ''config.ini''])"

text \<open>The lines of the file: a line with at least two fields between \<^verbatim>\<open>=\<close> sets the first
  field to the second.\<close>

fun parseConfigLines :: "string list \<Rightarrow> config_map \<Rightarrow> config_map" where
  "parseConfigLines [] configMap = configMap"
| "parseConfigLines (line # lines) configMap =
     (case split (CHR ''='') line of
        k # v # rest \<Rightarrow> parseConfigLines lines (Map_set configMap k v)
      | _ \<Rightarrow> parseConfigLines lines configMap)"

definition readEmulatorConfig :: "sys \<Rightarrow> string \<Rightarrow> config_map io" where
  "readEmulatorConfig S emulatorName =
     orElse
       (andThen (readFile S (configFilePath S emulatorName))
          (\<lambda>configFile. resolve (parseConfigLines (split (CHR 0x0A) configFile) [])))
       (\<lambda>error. resolve [])"

definition configString :: "config_map \<Rightarrow> string" where
  "configString configMap = concat (map (\<lambda>(k, v). k @ ''='' @ v @ [CHR 0x0A]) configMap)"

definition writeEmulatorConfig :: "sys \<Rightarrow> string \<Rightarrow> config_map \<Rightarrow> unit io" where
  "writeEmulatorConfig S emulatorName configMap =
     writeFile (configFilePath S emulatorName) (configString configMap)"

text \<open>The updates that \<^verbatim>\<open>updateEmulatorConfig\<close> makes to the map it has read, in order.\<close>

definition lowerCaseEntry :: "string \<Rightarrow> config_map \<Rightarrow> config_map" where
  "lowerCaseEntry k configMap =
     (case Map_get configMap k of
        None \<Rightarrow> configMap
      | Some v \<Rightarrow> if v = [] then configMap else Map_set configMap k (toLowerCase (trim v)))"

definition skinNameOf :: "config_map \<Rightarrow> string" where
  "skinNameOf configMap =
     (case Map_get configMap ''hw.device.name'' of None \<Rightarrow> [] | Some d \<Rightarrow> d)"

definition remapSkin :: "string \<Rightarrow> string" where
  "remapSkin skinName =
     (if skinName = ''pixel'' then ''pixel_silver''
      else if skinName = ''pixel_xl'' then ''pixel_xl_silver''
      else skinName)"

definition setSkin :: "sys \<Rightarrow> config_map \<Rightarrow> config_map" where
  "setSkin S configMap =
     (if skinNameOf configMap \<noteq> []
      then
        (let skinName = remapSkin (skinNameOf configMap);
             c1 = Map_set configMap ''skin.name'' skinName;
             c2 = Map_set c1 ''skin.path''
                    ((case sdkRootLocation S of None \<Rightarrow> [] | Some l \<Rightarrow> l)
                     @ ''/skins/'' @ skinName);
             c3 = Map_set c2 ''skin.dynamic'' ''yes''
         in Map_set c3 ''showDeviceFrame'' ''yes'')
      else configMap)"

definition updatedConfig :: "sys \<Rightarrow> config_map \<Rightarrow> config_map" where
  "updatedConfig S configMap =
     (let c1 = lowerCaseEntry ''runtime.network.latency'' configMap;
          c2 = lowerCaseEntry ''runtime.network.speed'' c1;
          c3 = Map_set c2 ''hw.keyboard'' ''yes'';
          c4 = Map_set c3 ''hw.gpu.mode'' ''auto'';
          c5 = Map_set c4 ''hw.gpu.enabled'' ''yes''
      in setSkin S c5)"

definition updateEmulatorConfig :: "sys \<Rightarrow> string \<Rightarrow> unit io" where
  "updateEmulatorConfig S emulatorName =
     andThen (readEmulatorConfig S emulatorName)
       (\<lambda>configMap.
          if length configMap = 0 then resolve ()
          else writeEmulatorConfig S emulatorName (updatedConfig S configMap))"


subsection \<open>Vocabulary of the tool paths\<close>

text \<open>The directory \<^verbatim>\<open>cmdline-tools\<close> of the SDK root, which \<^verbatim>\<open>getAndroidCmdLineToolsBin\<close> lists.\<close>

definition cmdLineToolsDir :: "sys \<Rightarrow> string" where
  "cmdLineToolsDir S =
     pathJoin S [case sdkRootLocation S of None \<Rightarrow> [] | Some root \<Rightarrow> root, ''cmdline-tools'']"

subsection \<open>Vocabulary of the retries\<close>

text \<open>
  The events of \<open>k\<close> attempts of a command, with the delay between two attempts.
\<close>

fun attempts :: "string \<Rightarrow> nat \<Rightarrow> nat \<Rightarrow> event list" where
  "attempts c d 0 = []"
| "attempts c d (Suc 0) = [Exec c]"
| "attempts c d (Suc (Suc k)) = Exec c # Delay d # attempts c d (Suc k)"

subsection \<open>Vocabulary of the life cycle\<close>

text \<open>
  The command with which \<^verbatim>\<open>waitUntilDeviceIsReady\<close> waits for the end of the boot. A world
  is quiescent when its answer to an event does not depend on what happened before.
\<close>

definition bootCompletedCommand :: "sys \<Rightarrow> string" where
  "bootCompletedCommand S =
     ''wait-for-device shell '' @ (if windows S then [CHR 0x22] else [CHR 0x27])
     @ ''while ['' @ ''[ -z $(getprop sys.boot_completed) ]'' @ '']; do sleep 1; done;''
     @ (if windows S then [CHR 0x22] else [CHR 0x27])"

definition quiescent :: "sys \<Rightarrow> bool" where
  "quiescent S =
     (\<forall>t t' e. run S (t @ [e]) = run S (t' @ [e])
              \<and> readFileSync S (t @ [e]) = readFileSync S (t' @ [e]))"

text \<open>
  For the proofs: \<open>emits P f\<close> says that \<open>f\<close> only appends events, all of which satisfy
  \<open>P\<close>; \<open>uniform f\<close> says that the result of \<open>f\<close> and the events it appends do not depend
  on the history; \<open>lastCharNot ch\<close> holds for every event but a command that ends with the
  character \<open>ch\<close>.
\<close>

definition emits :: "(event \<Rightarrow> bool) \<Rightarrow> 'a io \<Rightarrow> bool" where
  "emits P f = (\<forall>tr. \<exists>ext. snd (f tr) = tr @ ext \<and> list_all P ext)"

definition uniform :: "'a io \<Rightarrow> bool" where
  "uniform f = (\<exists>r ext. \<forall>tr. f tr = (r, tr @ ext))"

definition lastCharNot :: "char \<Rightarrow> event \<Rightarrow> bool" where
  "lastCharNot ch e = (case e of Exec c \<Rightarrow> last c \<noteq> ch | _ \<Rightarrow> True)"

subsection \<open>Vocabulary of the package resolution\<close>

text \<open>
  The candidates of a resolution: the platform packages that are same or newer than the
  minimum supported runtime and have a supported emulator image. \<open>newestFirst\<close> is the
  compare function that \<^verbatim>\<open>fetchAllAvailableApiPackages\<close> passes to \<^verbatim>\<open>sort\<close>.
\<close>

definition candidatePackages :: "sys \<Rightarrow> AndroidPackages \<Rightarrow> Version \<Rightarrow> AndroidPackage list" where
  "candidatePackages S inventory minSupported =
     filter (\<lambda>pkg. sameOrNewer (version pkg) minSupported
                   \<and> packageWithRequiredEmulatorImages S (systemImages inventory) pkg \<noteq> None)
       (platforms inventory)"

definition newestFirst :: "AndroidPackage \<Rightarrow> AndroidPackage \<Rightarrow> int" where
  "newestFirst a b = compare (version a) (version b) * - 1"

section \<open>Example environments\<close>

text \<open>
  Concrete environments, on which the functions above can be run. A world that answers a
  command by a table, whatever happened before; a world that answers the successive commands
  by the successive entries of a list; a file system that holds some files at the start and
  returns what was written last.
\<close>

definition answers :: "(string \<times> cmd_result) list \<Rightarrow> event list \<Rightarrow> cmd_result" where
  "answers table tr =
     (if tr = [] then Rejected []
      else (case last tr of
              Exec c \<Rightarrow>
                (case map_of table c of
                   None \<Rightarrow> Rejected []
                 | Some r \<Rightarrow> r)
            | _ \<Rightarrow> Rejected []))"

definition isExec :: "event \<Rightarrow> bool" where
  "isExec e = (case e of Exec c \<Rightarrow> True | _ \<Rightarrow> False)"

definition replay :: "cmd_result list \<Rightarrow> event list \<Rightarrow> cmd_result" where
  "replay outcomes tr =
     (let k = length (filter isExec tr)
      in if 0 < k \<and> k \<le> length outcomes then outcomes ! (k - 1) else Rejected [])"

fun lastWritten :: "event list \<Rightarrow> string \<Rightarrow> string option" where
  "lastWritten [] p = None"
| "lastWritten (e # es) p =
     (case lastWritten es p of
        Some c \<Rightarrow> Some c
      | None \<Rightarrow> (case e of WriteFile q c \<Rightarrow> if q = p then Some c else None | _ \<Rightarrow> None))"

definition fileStore :: "(string \<times> string) list \<Rightarrow> event list \<Rightarrow> string option" where
  "fileStore initial tr =
     (if tr = [] then None
      else (case last tr of
              ReadFile p \<Rightarrow>
                (case lastWritten (butlast tr) p of
                   Some c \<Rightarrow> Some c
                 | None \<Rightarrow> map_of initial p)
            | _ \<Rightarrow> None))"

text \<open>A parser of versions of the form \<^verbatim>\<open>major\<close>, \<^verbatim>\<open>major.minor\<close> or
  \<^verbatim>\<open>major.minor.patch\<close>, for the examples.\<close>

definition dottedVersion :: "string \<Rightarrow> error + Version" where
  "dottedVersion s =
     (if s = [] \<or> (\<exists>c \<in> set s. \<not> isDigit c \<and> c \<noteq> CHR ''.'') then Inl (ParseError s)
      else (case map Number (split (CHR ''.'') s) of
              [a] \<Rightarrow> Inr \<lparr>major = a, minor = None, patch = None\<rparr>
            | [a, b] \<Rightarrow> Inr \<lparr>major = a, minor = Some b, patch = None\<rparr>
            | [a, b, c] \<Rightarrow> Inr \<lparr>major = a, minor = Some b, patch = Some c\<rparr>
            | _ \<Rightarrow> Inl (ParseError s)))"

definition exampleConfig :: AndroidConfig where
  "exampleConfig =
     \<lparr>minSupportedRuntime = ''23'',
      supportedArchitectures = [''x86_64''],
      supportedImages = [''google_apis'', ''default''],
      AdbNumRetryAttempts = 6,
      AdbRetryAttemptDelay = 1000,
      deviceReadinessWaitTime = 120000,
      defaultAdbPort = 5572\<rparr>"

definition exampleSys ::
  "(event list \<Rightarrow> cmd_result) \<Rightarrow> (event list \<Rightarrow> string option) \<Rightarrow> AndroidVirtualDevice list \<Rightarrow> sys"
  where
  "exampleSys world files devices =
     \<lparr>config = exampleConfig,
      adbShellCommand = ''adb'',
      emulatorCommand = ''emulator'',
      avdManagerCommand = ''avdmanager'',
      androidCmdLineToolsBin = ''/sdk/cmdline-tools/latest/bin'',
      sdkRootLocation = Some ''/sdk'',
      windows = False,
      versionFrom = dottedVersion,
      parseRawString = (\<lambda>s. Inr devices),
      matchPattern = (\<lambda>subject pattern. includesStr subject (butlast (tl pattern))),
      pathJoin = (\<lambda>parts. concat (map (\<lambda>p. CHR ''/'' # p) parts)),
      resolveUserHomePath = (\<lambda>p. p),
      run = world,
      deadlinePassed = (\<lambda>t tr. False),
      readFileSync = files,
      existsSync = (\<lambda>t p. False),
      readdirSync = (\<lambda>t p. None)\<rparr>"

definition ok :: "string \<Rightarrow> cmd_result" where
  "ok out = Resolved \<lparr>stdout = out, stderr = []\<rparr>"

definition twoDevices :: string where
  "twoDevices =
     ''List of devices attached'' @ [CHR 0x0A]
     @ ''emulator-5554'' @ [CHR 0x09] @ ''device'' @ [CHR 0x0A]
     @ ''emulator-10000'' @ [CHR 0x09] @ ''device'' @ [CHR 0x0A]"

definition platformPackage :: "string \<Rightarrow> Version \<Rightarrow> AndroidPackage" where
  "platformPackage api v =
     \<lparr>path = ''platforms;'' @ api, version = v, description = ''Android SDK Platform'',
      platformAPI = api\<rparr>"

definition imagePackage :: "string \<Rightarrow> string \<Rightarrow> string \<Rightarrow> Version \<Rightarrow> AndroidPackage" where
  "imagePackage api flavour abi v =
     \<lparr>path = ''system-images;'' @ api @ '';'' @ flavour @ '';'' @ abi, version = v,
      description = ''System Image'', platformAPI = api\<rparr>"

definition apiVersion :: "nat \<Rightarrow> Version" where
  "apiVersion n = \<lparr>major = n, minor = None, patch = None\<rparr>"

definition exampleInventory :: AndroidPackages where
  "exampleInventory =
     \<lparr>platforms = [platformPackage ''android-28'' (apiVersion 28), platformPackage ''android-29'' (apiVersion 29),
                   platformPackage ''android-30'' (apiVersion 30)],
      systemImages = [imagePackage ''android-29'' ''google_apis'' ''x86_64'' (apiVersion 29),
                      imagePackage ''android-30'' ''default'' ''x86_64'' (apiVersion 30)]\<rparr>"

definition plainSys :: sys where
  "plainSys = exampleSys (answers []) (fileStore []) []"

definition pixelC :: sys where
  "pixelC =
     exampleSys (answers [])
       (fileStore [(''/~/.android/avd/Pixel_C.avd/config.ini'',
                    ''hw.device.name=pixel_c'' @ [CHR 0x0A])]) []"

definition listing :: "string \<Rightarrow> sys" where
  "listing avds = exampleSys (answers [(''emulator -list-avds'', ok avds)]) (fileStore []) []"

definition devicesSys :: "string \<Rightarrow> sys" where
  "devicesSys out = exampleSys (answers [(''adb devices'', ok out)]) (fileStore []) []"

text \<open>Worlds for the command \<^verbatim>\<open>adb -s emulator-5554 root\<close>: it fails twice with different
  messages; it always fails; it succeeds; it succeeds with the letters of the marker spread
  over the two streams.\<close>

definition flaky :: sys where
  "flaky =
     exampleSys (replay [ok ''error: device offline'', ok ''error: closed'']) (fileStore []) []"

definition failing :: sys where
  "failing =
     exampleSys (answers [(''adb -s emulator-5554 root'', ok ''error: closed'')]) (fileStore []) []"

definition rooted :: sys where
  "rooted =
     exampleSys (answers [(''adb -s emulator-5554 root'', ok ''restarting adbd as root'')])
       (fileStore []) []"

definition splitSys :: sys where
  "splitSys =
     exampleSys
       (answers [(''adb -s emulator-5554 root'',
                  Resolved \<lparr>stdout = ''or: device offline'', stderr = ''fatal err''\<rparr>)])
       (fileStore []) []"

text \<open>
  A world in which the device \<^verbatim>\<open>Pixel_XL\<close>, of API level 30, runs on port 5554; the
  arguments are the answers to \<^verbatim>\<open>avbctl get-verification\<close> and \<^verbatim>\<open>avbctl get-verity\<close> and
  the launch parameters that the emulator has recorded. Its files do not change.
\<close>

definition fixedFiles :: "(string \<times> string) list \<Rightarrow> event list \<Rightarrow> string option" where
  "fixedFiles table tr =
     (if tr = [] then None
      else (case last tr of ReadFile p \<Rightarrow> map_of table p | _ \<Rightarrow> None))"

definition pixelXL :: AndroidVirtualDevice where
  "pixelXL = \<lparr>name = ''Pixel_XL'', target = ''Google APIs'', apiLevel = apiVersion 30\<rparr>"

definition deviceCommands :: "string \<Rightarrow> string \<Rightarrow> (string \<times> cmd_result) list" where
  "deviceCommands verification verity =
     [(''emulator -list-avds'', ok (''Pixel_XL'' @ [CHR 0x0A])),
      (''adb devices'',
       ok (''List of devices attached'' @ [CHR 0x0A]
           @ ''emulator-5554'' @ [CHR 0x09] @ ''device'' @ [CHR 0x0A])),
      (''adb -s emulator-5554 emu avd name'', ok (''Pixel_XL'' @ [CHR 0x0D, CHR 0x0A] @ ''OK'')),
      (''adb -s emulator-5554 emu avd path'', ok (''avd/Pixel_XL.avd'' @ [CHR 0x0A] @ ''OK'')),
      (''avdmanager list avd'', ok ''Name: Pixel_XL''),
      (''adb -s emulator-5554 root'', ok ''restarting adbd as root''),
      (''adb -s emulator-5554 shell avbctl get-verification'', ok verification),
      (''adb -s emulator-5554 shell avbctl get-verity'', ok verity),
      (''adb -s emulator-5554 shell avbctl disable-verification'', ok ''Successfully disabled''),
      (''adb -s emulator-5554 disable-verity'', ok ''Successfully disabled''),
      (''adb -s emulator-5554 shell reboot'', ok []),
      (''adb -s emulator-5554 wait-for-device shell '' @ [CHR 0x27]
       @ ''while ['' @ ''[ -z $(getprop sys.boot_completed) ]'' @ '']; do sleep 1; done;''
       @ [CHR 0x27], ok []),
      (''adb -s emulator-5554 remount'', ok ''remount succeeded''),
      (''adb -s emulator-5554 shell reboot -p'', ok []),
      (''while ['' @ ''[ -n $(adb devices | grep emulator-5554) ]'' @ '']; do sleep 1; done;'',
       ok [])]"

definition deviceSys :: "string \<Rightarrow> string \<Rightarrow> string \<Rightarrow> sys" where
  "deviceSys verification verity launchParams =
     exampleSys (answers (deviceCommands verification verity))
       (fixedFiles [(''/avd/Pixel_XL.avd/emu-launch-params.txt'', launchParams)])
       [pixelXL]"

text \<open>
  An SDK at \<^verbatim>\<open>/sdk\<close> whose tool paths have not been computed yet. \<open>joinSlash\<close> is what
  \<^verbatim>\<open>path.join\<close> does with segments that are not empty and have neither dots nor slashes
  where they meet. The directory \<^verbatim>\<open>/sdk/cmdline-tools\<close> exists, and listing it gives
  \<open>entries\<close>, or throws when \<open>entries\<close> is \<open>None\<close>.
\<close>

fun joinSlash :: "string list \<Rightarrow> string" where
  "joinSlash [] = ''.''"
| "joinSlash [p] = p"
| "joinSlash (p # q # ps) = p @ ''/'' @ joinSlash (q # ps)"

definition freshSys :: "(event list \<Rightarrow> cmd_result) \<Rightarrow> string list option \<Rightarrow> sys" where
  "freshSys world entries =
     (exampleSys world (fileStore []) [])
       \<lparr>avdManagerCommand := [],
        androidCmdLineToolsBin := [],
        pathJoin := joinSlash,
        existsSync := (\<lambda>t p. p = ''/sdk/cmdline-tools''),
        readdirSync := (\<lambda>t p. if p = ''/sdk/cmdline-tools'' then entries else None)\<rparr>"

section \<open>Evaluation\<close>

lemmas js_defs = toString.simps digitChar_def toLowerCase_def lowerChar_def upperLetters_def lowerLetters_def trim_def isSpace_def
  matchDigits_def isDigit_def Number_def sortDefault_def sortBy_def defaultCompare_def
  replaceSeparators_def portOfLine_def firstLine_def displayName_def

lemmas io_defs = resolve_def reject_def andThen_def orElse_def executeCommandAsync_def
  delay_def spawn_def readFile_def writeFile_def promiseWithTimeout_def

lemmas ex_defs = exampleSys_def exampleConfig_def answers_def replay_def isExec_def fileStore_def
  dottedVersion_def ok_def fixedFiles_def


lemma plainSys_simps:
  "config plainSys = exampleConfig"
  "versionFrom plainSys = dottedVersion"
  "supportedImages exampleConfig = [''google_apis'', ''default'']"
  "supportedArchitectures exampleConfig = [''x86_64'']"
  "minSupportedRuntime exampleConfig = ''23''"
  "matchPattern plainSys = (\<lambda>subject pattern. includesStr subject (butlast (tl pattern)))"
  by (simp_all add: plainSys_def exampleSys_def exampleConfig_def)

section \<open>Sorting\<close>

text \<open>The sort keeps the elements of the list.\<close>

lemma set_insertBy: "set (insertBy c x xs) = insert x (set xs)"
  by (induction xs) auto

lemma set_sortBy: "set (sortBy c xs) = set xs"
  by (induction xs) (auto simp: sortBy_def set_insertBy)

lemma length_insertBy: "length (insertBy c x xs) = Suc (length xs)"
  by (induction xs) auto

lemma length_sortBy: "length (sortBy c xs) = length xs"
  by (induction xs) (auto simp: sortBy_def length_insertBy)

text \<open>
  Decimal numerals of the same length are ordered as strings the way the numbers are ordered,
  so the default sort puts numbers with the same count of digits in increasing order.
\<close>

lemma digitChar_code: "d < 10 \<Longrightarrow> (of_char (digitChar d) :: nat) = 48 + d"
proof -
  assume "d < 10"
  then have "d \<in> {0, 1, 2, 3, 4, 5, 6, 7, 8, 9}" by auto
  then show ?thesis by (auto simp: digitChar_def)
qed

lemma digitChar_inj:
  assumes "d < 10" and "e < 10"
  shows "(digitChar d = digitChar e) = (d = e)"
proof
  assume "digitChar d = digitChar e"
  then have "(of_char (digitChar d) :: nat) = of_char (digitChar e)" by simp
  then show "d = e" using digitChar_code [OF assms(1)] digitChar_code [OF assms(2)] by simp
next
  assume "d = e"
  then show "digitChar d = digitChar e" by simp
qed

lemma toString_small: "n < 10 \<Longrightarrow> toString n = [digitChar n]"
  by (simp add: toString.simps)

lemma toString_large: "\<not> n < 10 \<Longrightarrow> toString n = toString (n div 10) @ [digitChar (n mod 10)]"
  by (subst toString.simps) simp

lemma toString_ne: "toString n \<noteq> []"
  by (cases "n < 10") (simp_all add: toString_small toString_large)

lemma length_toString_one: "(length (toString n) = 1) = (n < 10)"
  using toString_ne [of "n div 10"]
  by (cases "n < 10") (auto simp: toString_small toString_large)

lemma stringLess_snoc:
  "length xs = length ys \<Longrightarrow>
   stringLess (xs @ [x]) (ys @ [y]) =
     (stringLess xs ys \<or> (xs = ys \<and> (of_char x :: nat) < of_char y))"
  by (induction xs ys rule: list_induct2) auto

lemma lt_digits:
  "r1 < 10 \<Longrightarrow> r2 < 10 \<Longrightarrow>
   (10 * q1 + r1 < 10 * q2 + (r2::nat)) = (q1 < q2 \<or> (q1 = q2 \<and> r1 < r2))"
  by arith

lemma eq_digits:
  "r1 < 10 \<Longrightarrow> r2 < 10 \<Longrightarrow>
   (10 * q1 + r1 = 10 * q2 + (r2::nat)) = (q1 = q2 \<and> r1 = r2)"
  by arith

lemma toString_order:
  "length (toString a) = length (toString b) \<Longrightarrow>
   stringLess (toString a) (toString b) = (a < b) \<and> (toString a = toString b) = (a = b)"
proof (induction a arbitrary: b rule: toString.induct)
  case (1 a)
  show ?case
  proof (cases "a < 10")
    case True
    then have "b < 10" using "1.prems" length_toString_one [of a] length_toString_one [of b] by simp
    then show ?thesis
      using True by (simp add: toString_small digitChar_code digitChar_inj)
  next
    case False
    then have b: "\<not> b < 10"
      using "1.prems" length_toString_one [of a] length_toString_one [of b] by simp
    have len: "length (toString (a div 10)) = length (toString (b div 10))"
      using "1.prems" False b by (simp add: toString_large)
    note IH = "1.IH" [OF False len]
    have lt: "(a < b) = (a div 10 < b div 10 \<or> (a div 10 = b div 10 \<and> a mod 10 < b mod 10))"
      using lt_digits [of "a mod 10" "b mod 10" "a div 10" "b div 10"] by simp
    have eq: "(a = b) = (a div 10 = b div 10 \<and> a mod 10 = b mod 10)"
      using eq_digits [of "a mod 10" "b mod 10" "a div 10" "b div 10"] by simp
    have "stringLess (toString a) (toString b) = (a < b)"
      using IH len
      by (simp add: toString_large [OF False] toString_large [OF b] stringLess_snoc
          digitChar_code lt)
    moreover have "(toString a = toString b) = (a = b)"
      using IH
      by (simp add: toString_large [OF False] toString_large [OF b] digitChar_inj eq)
    ultimately show ?thesis by simp
  qed
qed

lemma defaultCompare_same_length:
  "length (toString a) = length (toString b) \<Longrightarrow> (defaultCompare a b \<le> 0) = (a \<le> b)"
  using toString_order [of a b] toString_order [of b a]
  by (auto simp: defaultCompare_def)

lemma sorted_insertBy_default:
  "sorted xs \<Longrightarrow> \<forall>p \<in> set (x # xs). length (toString p) = k \<Longrightarrow>
   sorted (insertBy defaultCompare x xs)"
proof (induction xs)
  case Nil
  show ?case by simp
next
  case (Cons y ys)
  have cmp: "(defaultCompare x y \<le> 0) = (x \<le> y)"
    using Cons.prems(2) defaultCompare_same_length [of x y] by simp
  show ?case
  proof (cases "x \<le> y")
    case True
    then show ?thesis using Cons.prems(1) cmp by auto
  next
    case False
    have "sorted (insertBy defaultCompare x ys)"
      using Cons.IH Cons.prems by simp
    then show ?thesis
      using False Cons.prems(1) cmp by (auto simp: set_insertBy)
  qed
qed

lemma sorted_sortDefault:
  "\<forall>p \<in> set ports. length (toString p) = k \<Longrightarrow> sorted (sortDefault ports)"
proof (induction ports)
  case Nil
  show ?case by (simp add: sortDefault_def sortBy_def)
next
  case (Cons p ps)
  have "sorted (sortDefault ps)" using Cons by simp
  moreover have "\<forall>q \<in> set (p # sortDefault ps). length (toString q) = k"
    using Cons.prems by (simp add: sortDefault_def set_sortBy)
  ultimately have "sorted (insertBy defaultCompare p (sortDefault ps))"
    by (rule sorted_insertBy_default)
  then show ?case by (simp add: sortDefault_def sortBy_def)
qed

lemma greatest_same_length:
  assumes "ports \<noteq> []" and "\<forall>p \<in> set ports. length (toString p) = k"
  shows "hd (rev (sortDefault ports)) = Max (set ports)"
proof -
  let ?s = "sortDefault ports"
  have ne: "?s \<noteq> []"
    using assms(1) length_sortBy [of defaultCompare ports] by (auto simp: sortDefault_def)
  have mem: "set ?s = set ports" by (simp add: sortDefault_def set_sortBy)
  have srt: "sorted ?s" using assms(2) by (rule sorted_sortDefault)
  have "hd (rev ?s) = last ?s" using ne by (simp add: hd_rev)
  moreover have "last ?s \<in> set ports" using ne mem last_in_set by blast
  moreover have "\<forall>q \<in> set ports. q \<le> last ?s"
  proof
    fix q assume "q \<in> set ports"
    then have "q \<in> set ?s" using mem by simp
    then obtain i where i: "i < length ?s" "?s ! i = q" by (auto simp: in_set_conv_nth)
    then have "?s ! i \<le> ?s ! (length ?s - 1)"
      using srt by (intro sorted_nth_mono) auto
    then show "q \<le> last ?s" using i ne by (simp add: last_conv_nth)
  qed
  ultimately show ?thesis using Max_eqI [of "set ports" "last ?s"] by simp
qed

lemma getNextAvailableAdbPort_same_length:
  assumes "getAllCurrentlyUsedAdbPorts S tr = (Inr ports, tr')"
    and "ports \<noteq> []" and "\<forall>p \<in> set ports. length (toString p) = k"
  shows "getNextAvailableAdbPort S tr = (Inr (Max (set ports) + 2), tr')"
  using assms(1,2) greatest_same_length [OF assms(2,3)]
  by (simp add: getNextAvailableAdbPort_def andThen_def resolve_def)

section \<open>Port allocation\<close>

lemma getNextAvailableAdbPort_none:
  "getNextAvailableAdbPort (devicesSys (''List of devices attached'' @ [CHR 0x0A])) [] =
     (Inr 5572, [Exec ''adb devices''])"
  by (simp add: getNextAvailableAdbPort_def getAllCurrentlyUsedAdbPorts_def devicesSys_def
      io_defs ex_defs js_defs)

lemma getNextAvailableAdbPort_5554_5556:
  "getNextAvailableAdbPort
     (devicesSys (''List of devices attached'' @ [CHR 0x0A]
                  @ ''emulator-5554'' @ [CHR 0x09] @ ''device'' @ [CHR 0x0A]
                  @ ''emulator-5556'' @ [CHR 0x09] @ ''device'' @ [CHR 0x0A])) [] =
     (Inr 5558, [Exec ''adb devices''])"
  by (simp add: getNextAvailableAdbPort_def getAllCurrentlyUsedAdbPorts_def devicesSys_def
      io_defs ex_defs js_defs)

lemma getAllCurrentlyUsedAdbPorts_twoDevices:
  "getAllCurrentlyUsedAdbPorts (devicesSys twoDevices) [] = (Inr [5554, 10000], [Exec ''adb devices''])"
  by (simp add: getAllCurrentlyUsedAdbPorts_def devicesSys_def twoDevices_def io_defs ex_defs js_defs)

text \<open>
  C3. The next port is meant to be the greatest active port plus two, and the default port
  when no port is active. \<^verbatim>\<open>ports.sort()\<close> has no compare function and orders the numbers
  as strings, so that 10000 comes before 5554: with the emulators 5554 and 10000 attached the
  function returns 5556, not 10002.
\<close>

theorem getNextAvailableAdbPort_string_order:
  "getNextAvailableAdbPort (devicesSys twoDevices) [] = (Inr 5556, [Exec ''adb devices''])
   \<and> Max (set [5554, 10000 :: nat]) + 2 = 10002"
  by (simp add: getNextAvailableAdbPort_def andThen_def resolve_def
      getAllCurrentlyUsedAdbPorts_twoDevices sortDefault_def sortBy_def defaultCompare_def
      toString.simps digitChar_def)

section \<open>The listing of virtual devices\<close>

lemma getAndroidCmdLineToolsBin_trace: "snd (getAndroidCmdLineToolsBin S tr) = tr"
  by (simp add: getAndroidCmdLineToolsBin_def Let_def split: option.splits)

lemma getAvdManagerCommand_trace: "snd (getAvdManagerCommand S tr) = tr"
proof -
  obtain r where "getAndroidCmdLineToolsBin S tr = (r, tr)"
    using getAndroidCmdLineToolsBin_trace [of S tr] by (cases "getAndroidCmdLineToolsBin S tr") simp
  then show ?thesis
    by (simp add: getAvdManagerCommand_def andThen_def resolve_def split: sum.splits)
qed

lemma getAvdManagerCommand_throws:
  "(fst (getAvdManagerCommand S tr) = Inl e) =
     (avdManagerCommand S = [] \<and> androidCmdLineToolsBin S = []
      \<and> existsSync S tr (cmdLineToolsDir S) \<and> readdirSync S tr (cmdLineToolsDir S) = None
      \<and> e = FileError (cmdLineToolsDir S))"
  by (auto simp: getAvdManagerCommand_def getAndroidCmdLineToolsBin_def cmdLineToolsDir_def
      andThen_def resolve_def Let_def split: option.splits)

lemma fetchEmulators_path_thrown:
  "fst (getAvdManagerCommand S tr) = Inl e \<Longrightarrow> fetchEmulators S tr = (Inl e, tr)"
  using getAvdManagerCommand_trace [of S tr]
  by (cases "getAvdManagerCommand S tr") (simp add: fetchEmulators_def andThen_def)

lemma fetchEmulators_path_known:
  "fst (getAvdManagerCommand S tr) = Inr command \<Longrightarrow>
   fetchEmulators S tr =
     orElse
       (andThen (executeCommandAsync S (command @ '' list avd''))
          (\<lambda>result.
             if stdout result \<noteq> []
             then (case parseRawString S (stdout result) of
                     Inl e \<Rightarrow> reject e
                   | Inr devices \<Rightarrow> resolve devices)
             else resolve []))
       (\<lambda>error. resolve []) tr"
  using getAvdManagerCommand_trace [of S tr]
  by (cases "getAvdManagerCommand S tr") (simp add: fetchEmulators_def andThen_def)

lemma fetchEmulators_trace:
  "fst (getAvdManagerCommand S tr) = Inr command \<Longrightarrow>
   snd (fetchEmulators S tr) = tr @ [Exec (command @ '' list avd'')]"
  by (simp add: fetchEmulators_path_known io_defs Let_def split: cmd_result.splits sum.splits)

text \<open>
  C10, as the code has it. \<^verbatim>\<open>fetchEmulators\<close> rejects in one case only, and then before the
  listing command is run: neither the command of the AVD manager nor the directory of the
  command line tools is memoised, the directory \<^verbatim>\<open>cmdline-tools\<close> of the SDK exists, and
  listing it throws. In every other case the path of the command is found, and then
  \<^verbatim>\<open>fetchEmulators\<close> resolves whatever the outcome of the listing command is, with no device
  when the command rejects or prints nothing.
\<close>

theorem fetchEmulators_rejects_only_for_path:
  "(\<forall>e. (fst (fetchEmulators S tr) = Inl e) =
          (avdManagerCommand S = [] \<and> androidCmdLineToolsBin S = []
           \<and> existsSync S tr (cmdLineToolsDir S) \<and> readdirSync S tr (cmdLineToolsDir S) = None
           \<and> e = FileError (cmdLineToolsDir S)))
   \<and> (\<forall>e. fst (getAvdManagerCommand S tr) = Inl e \<longrightarrow> fetchEmulators S tr = (Inl e, tr))
   \<and> (\<forall>command. fst (getAvdManagerCommand S tr) = Inr command \<longrightarrow>
         (\<exists>devices. fst (fetchEmulators S tr) = Inr devices)
         \<and> (\<forall>err. run S (tr @ [Exec (command @ '' list avd'')]) = Rejected err
                \<longrightarrow> fst (fetchEmulators S tr) = Inr [])
         \<and> (\<forall>result. run S (tr @ [Exec (command @ '' list avd'')]) = Resolved result
                \<and> stdout result = [] \<longrightarrow> fst (fetchEmulators S tr) = Inr []))"
proof -
  have known: "(\<exists>devices. fst (fetchEmulators S tr) = Inr devices)
         \<and> (\<forall>err. run S (tr @ [Exec (command @ '' list avd'')]) = Rejected err
                \<longrightarrow> fst (fetchEmulators S tr) = Inr [])
         \<and> (\<forall>result. run S (tr @ [Exec (command @ '' list avd'')]) = Resolved result
                \<and> stdout result = [] \<longrightarrow> fst (fetchEmulators S tr) = Inr [])"
    if "fst (getAvdManagerCommand S tr) = Inr command" for command
    by (auto simp: fetchEmulators_path_known [OF that] io_defs Let_def
        split: cmd_result.splits sum.splits)
  have rejects: "(fst (fetchEmulators S tr) = Inl e) = (fst (getAvdManagerCommand S tr) = Inl e)" for e
  proof (cases "fst (getAvdManagerCommand S tr)")
    case (Inl e')
    then show ?thesis using fetchEmulators_path_thrown [OF Inl] by simp
  next
    case (Inr command)
    then show ?thesis using known [OF Inr] by auto
  qed
  show ?thesis
    using known rejects fetchEmulators_path_thrown [of S tr]
    by (simp add: getAvdManagerCommand_throws)
qed

lemma plain_command: "getAvdManagerCommand plainSys [] = (Inr ''avdmanager'', [])"
  by (simp add: getAvdManagerCommand_def resolve_def plainSys_def exampleSys_def)

lemma fresh_command:
  "getAvdManagerCommand (freshSys world (Some [''1.0'', ''latest'', ''4.0-beta01''])) [] =
     (Inr ''/sdk/cmdline-tools/latest/bin/avdmanager'', [])"
  by (simp add: getAvdManagerCommand_def getAndroidCmdLineToolsBin_def freshSys_def exampleSys_def
      andThen_def resolve_def sortBy_def descending_def)

lemma fresh_run: "run (freshSys world entries) = world"
  by (simp add: freshSys_def exampleSys_def)

theorem fetchEmulators_rejects_only_for_path_witness:
  "fst (fetchEmulators (freshSys (answers []) None) []) = Inl (FileError ''/sdk/cmdline-tools'')
   \<and> fst (fetchEmulators plainSys []) = Inr []
   \<and> fst (fetchEmulators
            (freshSys (answers [(''/sdk/cmdline-tools/latest/bin/avdmanager list avd'', ok [])])
               (Some [''1.0'', ''latest'', ''4.0-beta01''])) [])
       = Inr []"
proof -
  let ?fresh = "freshSys (answers [(''/sdk/cmdline-tools/latest/bin/avdmanager list avd'', ok [])])
                  (Some [''1.0'', ''latest'', ''4.0-beta01''])"
  have p: "fst (getAvdManagerCommand plainSys []) = Inr ''avdmanager''"
    by (simp add: plain_command)
  have pr: "run plainSys [Exec ''avdmanager list avd''] = Rejected []"
    by (simp add: plainSys_def ex_defs)
  have f: "fst (getAvdManagerCommand ?fresh []) = Inr ''/sdk/cmdline-tools/latest/bin/avdmanager''"
    by (simp add: fresh_command)
  have fr: "run ?fresh [Exec ''/sdk/cmdline-tools/latest/bin/avdmanager list avd''] =
              Resolved \<lparr>stdout = [], stderr = []\<rparr>"
    by (simp add: fresh_run answers_def replay_def isExec_def ok_def)
  have u: "avdManagerCommand (freshSys (answers []) None) = []"
    "androidCmdLineToolsBin (freshSys (answers []) None) = []"
    "cmdLineToolsDir (freshSys (answers []) None) = ''/sdk/cmdline-tools''"
    "existsSync (freshSys (answers []) None) [] ''/sdk/cmdline-tools''"
    "readdirSync (freshSys (answers []) None) [] ''/sdk/cmdline-tools'' = None"
    by (simp_all add: freshSys_def exampleSys_def cmdLineToolsDir_def)
  have "fst (fetchEmulators (freshSys (answers []) None) []) = Inl (FileError ''/sdk/cmdline-tools'')"
    using fetchEmulators_rejects_only_for_path [of "freshSys (answers []) None" "[]"] u by simp
  moreover have "fst (fetchEmulators plainSys []) = Inr []"
    using fetchEmulators_rejects_only_for_path [of plainSys "[]"] p pr by simp
  moreover have "fst (fetchEmulators ?fresh []) = Inr []"
    using fetchEmulators_rejects_only_for_path [of ?fresh "[]"] f fr by simp
  ultimately show ?thesis by simp
qed

text \<open>
  With a fresh SDK whose directory \<^verbatim>\<open>/sdk/cmdline-tools\<close> cannot be listed, \<^verbatim>\<open>fetchEmulators\<close>
  rejects, and no command has been run.
\<close>

theorem fetchEmulators_rejects_counterexample:
  "fetchEmulators (freshSys (answers []) None) [] = (Inl (FileError ''/sdk/cmdline-tools''), [])"
  by (simp add: fetchEmulators_def getAvdManagerCommand_def getAndroidCmdLineToolsBin_def
      freshSys_def exampleSys_def andThen_def resolve_def)

section \<open>The resolution of an emulator name\<close>

lemma findAvd_find:
  "d = displayName n \<Longrightarrow>
   findAvd n d avds = map_option trim (List.find (\<lambda>avd. displayName avd = d) avds)"
  by (induction avds) auto

text \<open>A no-break space at the end of the name is white space to \<^verbatim>\<open>trim\<close>.\<close>

lemma resolveEmulatorImage_no_break_space:
  "fst (resolveEmulatorImage (listing (''Pixel_XL'' @ [CHR 0x0A])) (''Pixel_XL'' @ [CHR 0xA0]) []) =
     Inr (Some ''Pixel_XL'')"
  by (simp add: resolveEmulatorImage_def listing_def io_defs ex_defs js_defs)

text \<open>
  C7, as the code has it. When the listing command resolves, the name is resolved to the
  first listed line whose display name (every \<^verbatim>\<open>_\<close> and \<^verbatim>\<open>-\<close> replaced by a space, white
  space trimmed at both ends) equals the display name of the name given, letter case
  included; that line is returned trimmed. When the command rejects, nothing is resolved.
  So two names with the same display name resolve to the same device.
\<close>

theorem resolveEmulatorImage_separators:
  "fst (resolveEmulatorImage S emulatorName tr) =
     Inr (case run S (tr @ [Exec (emulatorCommand S @ '' -list-avds'')]) of
            Rejected e \<Rightarrow> None
          | Resolved result \<Rightarrow>
              map_option trim
                (List.find (\<lambda>avd. displayName avd = displayName emulatorName)
                   (split (CHR 0x0A) (stdout result))))
   \<and> (displayName otherName = displayName emulatorName \<longrightarrow>
        resolveEmulatorImage S otherName tr = resolveEmulatorImage S emulatorName tr)"
  by (simp add: resolveEmulatorImage_def io_defs Let_def findAvd_find split: cmd_result.splits)

theorem resolveEmulatorImage_separators_witness:
  "fst (resolveEmulatorImage (listing (''Pixel_XL'' @ [CHR 0x0A])) ''Pixel XL'' []) = Inr (Some ''Pixel_XL'')
   \<and> resolveEmulatorImage (listing (''Pixel_XL'' @ [CHR 0x0A])) ''Pixel-XL'' []
     = resolveEmulatorImage (listing (''Pixel_XL'' @ [CHR 0x0A])) ''Pixel XL'' []"
  using resolveEmulatorImage_separators [of "listing (''Pixel_XL'' @ [CHR 0x0A])" "''Pixel XL''" "[]" "''Pixel-XL''"]
  by (simp add: listing_def ex_defs js_defs)

text \<open>
  C7 as stated fails: letter case matters. With the device \<^verbatim>\<open>Pixel_XL\<close> listed, the name
  \<^verbatim>\<open>Pixel_XL\<close> is resolved and the name \<^verbatim>\<open>pixel_xl\<close>, which differs from it in letter case
  only, is not.
\<close>

theorem resolveEmulatorImage_case_counterexample:
  "fst (resolveEmulatorImage (listing (''Pixel_XL'' @ [CHR 0x0A])) ''Pixel_XL'' []) = Inr (Some ''Pixel_XL'')
   \<and> fst (resolveEmulatorImage (listing (''Pixel_XL'' @ [CHR 0x0A])) ''pixel_xl'' []) = Inr None
   \<and> toLowerCase (displayName ''pixel_xl'') = toLowerCase (displayName ''Pixel_XL'')"
  by (simp add: resolveEmulatorImage_def listing_def io_defs ex_defs js_defs)

section \<open>The configuration file\<close>

lemma Map_get_set: "Map_get (Map_set m k v) k' = (if k' = k then Some v else Map_get m k')"
  by (induction m) (auto simp: Map_get_def)

lemma Map_get_lowerCaseEntry: "k' \<noteq> k \<Longrightarrow> Map_get (lowerCaseEntry k m) k' = Map_get m k'"
  by (simp add: lowerCaseEntry_def Map_get_set split: option.splits)

lemma skinNameOf_hardware:
  "skinNameOf (Map_set (Map_set (Map_set (lowerCaseEntry ''runtime.network.speed''
       (lowerCaseEntry ''runtime.network.latency'' m)) ''hw.keyboard'' ''yes'')
       ''hw.gpu.mode'' ''auto'') ''hw.gpu.enabled'' ''yes'') = skinNameOf m"
  by (simp add: skinNameOf_def Map_get_set Map_get_lowerCaseEntry)

lemma skin_name_updatedConfig:
  "Map_get (updatedConfig S m) ''skin.name'' =
     (if skinNameOf m \<noteq> [] then Some (remapSkin (skinNameOf m)) else Map_get m ''skin.name'')"
  by (simp add: updatedConfig_def setSkin_def Let_def skinNameOf_hardware Map_get_set
      Map_get_lowerCaseEntry)

lemma pixelC_read:
  "readEmulatorConfig pixelC ''Pixel_C'' [] =
     (Inr [(''hw.device.name'', ''pixel_c'')], [ReadFile ''/~/.android/avd/Pixel_C.avd/config.ini''])"
  by (simp add: pixelC_def readEmulatorConfig_def configFilePath_def io_defs ex_defs)

lemma pixelC_updated:
  "configString (updatedConfig pixelC [(''hw.device.name'', ''pixel_c'')]) =
     ''hw.device.name=pixel_c'' @ [CHR 0x0A] @ ''hw.keyboard=yes'' @ [CHR 0x0A]
     @ ''hw.gpu.mode=auto'' @ [CHR 0x0A] @ ''hw.gpu.enabled=yes'' @ [CHR 0x0A]
     @ ''skin.name=pixel_c'' @ [CHR 0x0A] @ ''skin.path=/sdk/skins/pixel_c'' @ [CHR 0x0A]
     @ ''skin.dynamic=yes'' @ [CHR 0x0A] @ ''showDeviceFrame=yes'' @ [CHR 0x0A]"
  by (simp add: pixelC_def exampleSys_def updatedConfig_def setSkin_def lowerCaseEntry_def
      skinNameOf_def remapSkin_def Map_get_def configString_def Let_def)

text \<open>
  C8, as the code has it. When the configuration read has a non-empty device profile name
  \<^verbatim>\<open>hw.device.name\<close>, the configuration written has a skin name: \<^verbatim>\<open>pixel_silver\<close> for the
  profile \<^verbatim>\<open>pixel\<close>, \<^verbatim>\<open>pixel_xl_silver\<close> for \<^verbatim>\<open>pixel_xl\<close>, and the profile name itself for
  every other profile.
\<close>

theorem updateEmulatorConfig_skin:
  assumes "fst (readEmulatorConfig S emulatorName tr) = Inr configMap"
    and "Map_get configMap ''hw.device.name'' = Some device"
    and "device \<noteq> []"
  shows "snd (updateEmulatorConfig S emulatorName tr) =
           tr @ [ReadFile (configFilePath S emulatorName),
                 WriteFile (configFilePath S emulatorName)
                   (configString (updatedConfig S configMap))]
         \<and> Map_get (updatedConfig S configMap) ''skin.name'' =
             Some (if device = ''pixel'' then ''pixel_silver''
                   else if device = ''pixel_xl'' then ''pixel_xl_silver'' else device)"
proof -
  have ne: "configMap \<noteq> []"
    using assms(2) by (auto simp: Map_get_def)
  have tr: "snd (readEmulatorConfig S emulatorName tr) = tr @ [ReadFile (configFilePath S emulatorName)]"
    by (simp add: readEmulatorConfig_def io_defs Let_def split: option.splits)
  have "snd (updateEmulatorConfig S emulatorName tr) =
           tr @ [ReadFile (configFilePath S emulatorName),
                 WriteFile (configFilePath S emulatorName)
                   (configString (updatedConfig S configMap))]"
    using assms(1) tr ne
    by (cases "readEmulatorConfig S emulatorName tr")
       (simp add: updateEmulatorConfig_def writeEmulatorConfig_def andThen_def writeFile_def
          resolve_def)
  moreover have "Map_get (updatedConfig S configMap) ''skin.name'' =
             Some (if device = ''pixel'' then ''pixel_silver''
                   else if device = ''pixel_xl'' then ''pixel_xl_silver'' else device)"
    using assms(2,3) by (simp add: skin_name_updatedConfig skinNameOf_def remapSkin_def)
  ultimately show ?thesis by simp
qed

theorem updateEmulatorConfig_skin_witness:
  "Map_get (updatedConfig pixelC [(''hw.device.name'', ''pixel_c'')]) ''skin.name'' = Some ''pixel_c''"
  using updateEmulatorConfig_skin
          [of pixelC "''Pixel_C''" "[]" "[(''hw.device.name'', ''pixel_c'')]" "''pixel_c''"]
  by (simp add: pixelC_read Map_get_def)

text \<open>
  C8 as stated fails: a profile that is not remapped is not left without a skin. For a
  device whose configuration names the profile \<^verbatim>\<open>pixel_c\<close>, the file written has the line
  \<^verbatim>\<open>skin.name=pixel_c\<close>.
\<close>

theorem updateEmulatorConfig_skin_counterexample:
  "snd (updateEmulatorConfig pixelC ''Pixel_C'' []) =
     [ReadFile ''/~/.android/avd/Pixel_C.avd/config.ini'',
      WriteFile ''/~/.android/avd/Pixel_C.avd/config.ini''
        (''hw.device.name=pixel_c'' @ [CHR 0x0A] @ ''hw.keyboard=yes'' @ [CHR 0x0A]
         @ ''hw.gpu.mode=auto'' @ [CHR 0x0A] @ ''hw.gpu.enabled=yes'' @ [CHR 0x0A]
         @ ''skin.name=pixel_c'' @ [CHR 0x0A] @ ''skin.path=/sdk/skins/pixel_c'' @ [CHR 0x0A]
         @ ''skin.dynamic=yes'' @ [CHR 0x0A] @ ''showDeviceFrame=yes'' @ [CHR 0x0A])]"
proof -
  have path: "configFilePath pixelC ''Pixel_C'' = ''/~/.android/avd/Pixel_C.avd/config.ini''"
    by (simp add: pixelC_def exampleSys_def configFilePath_def)
  have "updateEmulatorConfig pixelC ''Pixel_C'' [] =
          writeEmulatorConfig pixelC ''Pixel_C''
            (updatedConfig pixelC [(''hw.device.name'', ''pixel_c'')])
            [ReadFile ''/~/.android/avd/Pixel_C.avd/config.ini'']"
    by (simp add: updateEmulatorConfig_def andThen_def pixelC_read)
  then show ?thesis
    by (simp add: writeEmulatorConfig_def writeFile_def path pixelC_updated)
qed

subsection \<open>Writing and reading back\<close>

lemma split_no_sep: "sep \<notin> set s \<Longrightarrow> split sep s = [s]"
  by (induction s) auto

lemma split_ne: "split sep s \<noteq> []"
  by (induction s) (auto split: list.splits)

lemma split_append_sep: "sep \<notin> set l \<Longrightarrow> split sep (l @ sep # rest) = l # split sep rest"
  by (induction l) (auto split: list.splits simp: split_ne)

lemma split_key_value:
  "CHR ''='' \<notin> set k \<Longrightarrow> CHR ''='' \<notin> set v \<Longrightarrow> split (CHR ''='') (k @ ''='' @ v) = [k, v]"
  by (simp add: split_append_sep split_no_sep)

lemma Map_set_new: "k \<notin> fst ` set m \<Longrightarrow> Map_set m k v = m @ [(k, v)]"
  by (induction m) auto

lemma parse_configString:
  assumes "\<forall>(k, v) \<in> set m. CHR ''='' \<notin> set k \<and> CHR 0x0A \<notin> set k
                             \<and> CHR ''='' \<notin> set v \<and> CHR 0x0A \<notin> set v"
    and "distinct (map fst m)" and "fst ` set acc \<inter> fst ` set m = {}"
  shows "parseConfigLines (split (CHR 0x0A) (configString m)) acc = acc @ m"
  using assms
proof (induction m arbitrary: acc)
  case Nil
  then show ?case by (simp add: configString_def)
next
  case (Cons kv m)
  obtain k v where kv: "kv = (k, v)" by (cases kv)
  have clean: "CHR ''='' \<notin> set k" "CHR 0x0A \<notin> set k" "CHR ''='' \<notin> set v" "CHR 0x0A \<notin> set v"
    using Cons.prems(1) kv by auto
  have line: "split (CHR 0x0A) (configString (kv # m))
              = (k @ ''='' @ v) # split (CHR 0x0A) (configString m)"
    using clean split_append_sep [of "CHR 0x0A" "k @ ''='' @ v" "configString m"]
    by (simp add: configString_def kv)
  have new: "k \<notin> fst ` set acc" using Cons.prems(3) kv by auto
  have "parseConfigLines (split (CHR 0x0A) (configString (kv # m))) acc
        = parseConfigLines (split (CHR 0x0A) (configString m)) (acc @ [(k, v)])"
    using split_key_value [OF clean(1) clean(3)] by (simp add: line Map_set_new [OF new])
  also have "\<dots> = (acc @ [(k, v)]) @ m"
  proof (rule Cons.IH)
    show "\<forall>(k, v)\<in>set m. CHR ''='' \<notin> set k \<and> CHR 0x0A \<notin> set k
                          \<and> CHR ''='' \<notin> set v \<and> CHR 0x0A \<notin> set v"
      using Cons.prems(1) by auto
    show "distinct (map fst m)" using Cons.prems(2) by simp
    show "fst ` set (acc @ [(k, v)]) \<inter> fst ` set m = {}"
      using Cons.prems(2,3) kv by auto
  qed
  finally show ?case by (simp add: kv)
qed

text \<open>
  C9. A map whose keys and values have no \<^verbatim>\<open>=\<close> and no line feed is read back as it was
  written, entry by entry and in the same order, when the file system returns what was
  written. The keys of a \<^verbatim>\<open>Map\<close> are distinct.
\<close>

theorem config_round_trip:
  assumes "\<forall>(k, v) \<in> set configMap. CHR ''='' \<notin> set k \<and> CHR 0x0A \<notin> set k
                                     \<and> CHR ''='' \<notin> set v \<and> CHR 0x0A \<notin> set v"
    and "distinct (map fst configMap)"
    and "readFileSync S (tr @ [WriteFile (configFilePath S emulatorName) (configString configMap),
                              ReadFile (configFilePath S emulatorName)])
         = Some (configString configMap)"
  shows "fst (readEmulatorConfig S emulatorName
               (snd (writeEmulatorConfig S emulatorName configMap tr)))
         = Inr configMap"
  using assms(3) parse_configString [OF assms(1,2), of "[]"]
  by (simp add: readEmulatorConfig_def writeEmulatorConfig_def io_defs Let_def)

theorem config_round_trip_witness:
  "fst (readEmulatorConfig plainSys ''Pixel''
          (snd (writeEmulatorConfig plainSys ''Pixel'' [(''a'', ''1''), (''b'', ''2'')] [])))
   = Inr [(''a'', ''1''), (''b'', ''2'')]"
  using config_round_trip [of "[(''a'', ''1''), (''b'', ''2'')]" plainSys "[]" "''Pixel''"]
  by (simp add: plainSys_def ex_defs configFilePath_def configString_def)


section \<open>The resolution of the API package\<close>

lemma newestFirst_le: "(newestFirst a b \<le> 0) = (compare (version a) (version b) \<ge> 0)"
  by (simp add: newestFirst_def)

lemma compare_total: "compare a b \<ge> 0 \<or> compare b a \<ge> 0"
  by (auto simp: compare_def compareNat_def)

lemma compare_trans: "compare a b \<ge> 0 \<Longrightarrow> compare b c \<ge> 0 \<Longrightarrow> compare a c \<ge> 0"
  by (auto simp: compare_def compareNat_def split: if_splits)

lemma compare_antisym: "compare a b \<ge> 0 \<Longrightarrow> compare b a \<ge> 0 \<Longrightarrow> compare a b = 0"
  by (auto simp: compare_def compareNat_def split: if_splits)

lemma compare_zero_trans: "compare a v = 0 \<Longrightarrow> compare b v = 0 \<Longrightarrow> compare a b = 0"
  by (auto simp: compare_def compareNat_def split: if_splits)

lemma sorted_insertBy:
  assumes "sorted_wrt (\<lambda>a b. compare (version a) (version b) \<ge> 0) xs"
  shows "sorted_wrt (\<lambda>a b. compare (version a) (version b) \<ge> 0) (insertBy newestFirst x xs)"
  using assms
proof (induction xs)
  case Nil
  then show ?case by simp
next
  case (Cons y ys)
  show ?case
  proof (cases "newestFirst x y \<le> 0")
    case True
    then have xy: "compare (version x) (version y) \<ge> 0" by (simp add: newestFirst_le)
    have "\<forall>z \<in> set ys. compare (version x) (version z) \<ge> 0"
      using Cons.prems xy compare_trans by auto
    then show ?thesis using True Cons.prems xy by simp
  next
    case False
    then have "compare (version y) (version x) \<ge> 0"
      using compare_total [of "version x" "version y"] by (simp add: newestFirst_le)
    then show ?thesis using False Cons by (auto simp: set_insertBy)
  qed
qed

lemma sorted_sortBy:
  "sorted_wrt (\<lambda>a b. compare (version a) (version b) \<ge> 0) (sortBy newestFirst xs)"
proof (induction xs)
  case Nil
  then show ?case by (simp add: sortBy_def)
next
  case (Cons x xs)
  then show ?case using sorted_insertBy [of "sortBy newestFirst xs" x] by (simp add: sortBy_def)
qed

lemma filter_insertBy:
  "filter (\<lambda>p. compare (version p) v = 0) (insertBy newestFirst x xs) =
     (if compare (version x) v = 0 then x # filter (\<lambda>p. compare (version p) v = 0) xs
      else filter (\<lambda>p. compare (version p) v = 0) xs)"
proof (induction xs)
  case Nil
  then show ?case by simp
next
  case (Cons y ys)
  show ?case
  proof (cases "newestFirst x y \<le> 0")
    case True
    then show ?thesis by simp
  next
    case False
    then have "compare (version x) (version y) \<noteq> 0" by (simp add: newestFirst_def)
    then have "\<not> (compare (version x) v = 0 \<and> compare (version y) v = 0)"
      using compare_zero_trans by blast
    then show ?thesis using False Cons by auto
  qed
qed

lemma filter_sortBy:
  "filter (\<lambda>p. compare (version p) v = 0) (sortBy newestFirst xs) =
   filter (\<lambda>p. compare (version p) v = 0) xs"
  by (induction xs) (simp_all add: sortBy_def filter_insertBy)

lemma hd_sorted_greatest:
  assumes "xs \<noteq> []"
  shows "hd (sortBy newestFirst xs) \<in> set xs \<and>
         (\<forall>q \<in> set xs. compare (version (hd (sortBy newestFirst xs))) (version q) \<ge> 0)"
proof -
  obtain p ps where eq: "sortBy newestFirst xs = p # ps"
    using assms length_sortBy [of newestFirst xs] by (cases "sortBy newestFirst xs") auto
  have mem: "set (p # ps) = set xs" using set_sortBy [of newestFirst xs] eq by simp
  have "sorted_wrt (\<lambda>a b. compare (version a) (version b) \<ge> 0) (p # ps)"
    using sorted_sortBy [of xs] eq by simp
  then have "\<forall>q \<in> set ps. compare (version p) (version q) \<ge> 0" by simp
  moreover have "compare (version p) (version p) \<ge> 0" by (simp add: compare_def compareNat_def)
  ultimately have "\<forall>q \<in> set (p # ps). compare (version p) (version q) \<ge> 0" by simp
  then show ?thesis using mem eq by auto
qed

lemma fetchAll_candidates:
  assumes "versionFrom S (minSupportedRuntime (config S)) = Inr minSupported"
    and "candidatePackages S inventory minSupported \<noteq> []"
  shows "fetchAllAvailableApiPackages S (Inr inventory) True =
           Inr (sortBy newestFirst (candidatePackages S inventory minSupported))"
proof -
  have ne: "filter (\<lambda>pkg. sameOrNewer (version pkg) minSupported) (platforms inventory) \<noteq> []"
    using assms(2) by (auto simp: candidatePackages_def filter_empty_conv)
  then have "platforms inventory \<noteq> []" by auto
  then have "\<not> isEmpty inventory" by (simp add: isEmpty_def)
  moreover have "newestFirst = (\<lambda>a b. compare (version a) (version b) * - 1)"
    by (auto simp: newestFirst_def fun_eq_iff)
  moreover have "filter (\<lambda>pkg. packageWithRequiredEmulatorImages S (systemImages inventory) pkg \<noteq> None)
                  (filter (\<lambda>pkg. sameOrNewer (version pkg) minSupported) (platforms inventory))
                 = candidatePackages S inventory minSupported"
    by (simp add: candidatePackages_def conj_commute)
  ultimately show ?thesis
    using assms(1) ne
    by (simp add: fetchAllAvailableApiPackages_def Let_def)
qed

lemma fetchAll_no_candidates:
  assumes "versionFrom S (minSupportedRuntime (config S)) = Inr minSupported"
    and "candidatePackages S inventory minSupported = []"
  shows "fetchAllAvailableApiPackages S (Inr inventory) True = Inr []
         \<or> (\<exists>e. fetchAllAvailableApiPackages S (Inr inventory) True = Inl e)"
proof -
  have "filter (\<lambda>pkg. packageWithRequiredEmulatorImages S (systemImages inventory) pkg \<noteq> None)
                  (filter (\<lambda>pkg. sameOrNewer (version pkg) minSupported) (platforms inventory))
                 = []"
    using assms(2) by (simp add: candidatePackages_def conj_commute)
  then show ?thesis
    using assms(1)
    by (simp add: fetchAllAvailableApiPackages_def Let_def sortBy_def)
qed


text \<open>
  C4. The candidates are sorted by version, newest first, and candidates of equal version
  keep their order. When candidates exist, \<^verbatim>\<open>fetchAllAvailableApiPackages\<close> resolves with
  the sorted candidates and, without an API level, \<^verbatim>\<open>fetchSupportedAndroidAPIPackage\<close>
  resolves with a candidate that no candidate is newer than. With an API level, it
  resolves with the first sorted candidate whose version is the \<open>same\<close> as the level, and
  rejects when there is none.
\<close>

theorem fetchSupportedAndroidAPIPackage_resolution:
  assumes "versionFrom S (minSupportedRuntime (config S)) = Inr minSupported"
  shows
    "sorted_wrt (\<lambda>a b. compare (version a) (version b) \<ge> 0)
       (sortBy newestFirst (candidatePackages S inventory minSupported))
     \<and> (\<forall>w. filter (\<lambda>p. compare (version p) w = 0)
                (sortBy newestFirst (candidatePackages S inventory minSupported))
            = filter (\<lambda>p. compare (version p) w = 0) (candidatePackages S inventory minSupported))
     \<and> (candidatePackages S inventory minSupported \<noteq> [] \<longrightarrow>
          fetchAllAvailableApiPackages S (Inr inventory) True =
            Inr (sortBy newestFirst (candidatePackages S inventory minSupported))
          \<and> (\<exists>p. fetchSupportedAndroidAPIPackage S (Inr inventory) None = Inr p
                 \<and> p \<in> set (candidatePackages S inventory minSupported)
                 \<and> (\<forall>q \<in> set (candidatePackages S inventory minSupported).
                       compare (version p) (version q) \<ge> 0)))
     \<and> (level \<noteq> [] \<and> versionFrom S level = Inr targetRuntime \<longrightarrow>
          (case filter (\<lambda>pkg. same (version pkg) targetRuntime)
                  (sortBy newestFirst (candidatePackages S inventory minSupported)) of
             [] \<Rightarrow> \<exists>e. fetchSupportedAndroidAPIPackage S (Inr inventory) (Some level) = Inl e
           | p # rest \<Rightarrow> fetchSupportedAndroidAPIPackage S (Inr inventory) (Some level) = Inr p))"
proof -
  let ?C = "candidatePackages S inventory minSupported"
  let ?sorted = "sortBy newestFirst ?C"
  have all: "?C \<noteq> [] \<Longrightarrow> fetchAllAvailableApiPackages S (Inr inventory) True = Inr ?sorted"
    using fetchAll_candidates [OF assms] by simp
  have sorted_ne: "?C \<noteq> [] \<Longrightarrow> ?sorted \<noteq> []"
    using length_sortBy [of newestFirst ?C] by auto
  have latest: "?C \<noteq> [] \<Longrightarrow> fetchSupportedAndroidAPIPackage S (Inr inventory) None = Inr (hd ?sorted)"
    using all sorted_ne by (simp add: fetchSupportedAndroidAPIPackage_def Let_def)
  have given: "case filter (\<lambda>pkg. same (version pkg) targetRuntime) ?sorted of
             [] \<Rightarrow> \<exists>e. fetchSupportedAndroidAPIPackage S (Inr inventory) (Some level) = Inl e
           | p # rest \<Rightarrow> fetchSupportedAndroidAPIPackage S (Inr inventory) (Some level) = Inr p"
    if lv: "level \<noteq> []" "versionFrom S level = Inr targetRuntime"
  proof (cases "?C = []")
    case True
    then have "?sorted = []" by (simp add: sortBy_def)
    moreover have "\<exists>e. fetchSupportedAndroidAPIPackage S (Inr inventory) (Some level) = Inl e"
      using fetchAll_no_candidates [OF assms True] lv
      by (auto simp: fetchSupportedAndroidAPIPackage_def Let_def)
    ultimately show ?thesis by simp
  next
    case False
    show ?thesis
      using all [OF False] lv
      by (auto simp: fetchSupportedAndroidAPIPackage_def Let_def split: list.splits)
  qed
  show ?thesis
    using sorted_sortBy [of ?C] filter_sortBy [of _ ?C] all latest hd_sorted_greatest [of ?C] given
    by auto
qed

lemma example_candidates:
  "candidatePackages plainSys exampleInventory (apiVersion 23) =
     [platformPackage ''android-29'' (apiVersion 29), platformPackage ''android-30'' (apiVersion 30)]"
  by (simp add: candidatePackages_def exampleInventory_def plainSys_simps
      packageWithRequiredEmulatorImages_def imagePattern_def platformPackage_def imagePackage_def
      apiVersion_def sameOrNewer_def compare_def compareNat_def component_def)

lemma example_sorted:
  "sortBy newestFirst [platformPackage ''android-29'' (apiVersion 29), platformPackage ''android-30'' (apiVersion 30)] =
     [platformPackage ''android-30'' (apiVersion 30), platformPackage ''android-29'' (apiVersion 29)]"
  by (simp add: sortBy_def newestFirst_def platformPackage_def apiVersion_def compare_def compareNat_def component_def)

lemma example_min:
  "versionFrom plainSys (minSupportedRuntime (config plainSys)) = Inr (apiVersion 23)"
  by (simp add: plainSys_simps dottedVersion_def js_defs apiVersion_def)

lemma example_29: "versionFrom plainSys ''29'' = Inr (apiVersion 29)"
  by (simp add: plainSys_simps dottedVersion_def js_defs apiVersion_def)

theorem fetchSupportedAndroidAPIPackage_resolution_witness:
  "fetchAllAvailableApiPackages plainSys (Inr exampleInventory) True
     = Inr [platformPackage ''android-30'' (apiVersion 30), platformPackage ''android-29'' (apiVersion 29)]
   \<and> fetchSupportedAndroidAPIPackage plainSys (Inr exampleInventory) (Some ''29'')
     = Inr (platformPackage ''android-29'' (apiVersion 29))"
proof -
  have same29: "filter (\<lambda>pkg. same (version pkg) (apiVersion 29))
                  [platformPackage ''android-30'' (apiVersion 30), platformPackage ''android-29'' (apiVersion 29)]
                = [platformPackage ''android-29'' (apiVersion 29)]"
    by (simp add: same_def sameComponent_def apiVersion_def platformPackage_def)
  show ?thesis
    using fetchSupportedAndroidAPIPackage_resolution
            [OF example_min, of exampleInventory "''29''" "apiVersion 29",
             unfolded example_candidates example_sorted same29]
    by (simp add: example_29)
qed



section \<open>Commands with retries\<close>

lemma loop_succeeds:
  "i \<le> n \<Longrightarrow> \<not> hasErrorMarker (allOutputOf (run S (tr @ [Exec c]))) \<Longrightarrow>
   executeAdbCommandWithRetry_loop S c n d i out tr =
     (Inr (stdout (attemptResult (run S (tr @ [Exec c])))), tr @ [Exec c])"
  by (simp add: executeAdbCommandWithRetry_loop.simps)

lemma loop_retries:
  "i \<le> n \<Longrightarrow> hasErrorMarker (allOutputOf (run S (tr @ [Exec c]))) \<Longrightarrow>
   executeAdbCommandWithRetry_loop S c n d i out tr =
     executeAdbCommandWithRetry_loop S c n d (i + 1) (allOutputOf (run S (tr @ [Exec c])))
       (if i < n then tr @ [Exec c, Delay d] else tr @ [Exec c])"
  by (subst executeAdbCommandWithRetry_loop.simps) simp

lemma loop_exhausted:
  "\<not> i \<le> n \<Longrightarrow> executeAdbCommandWithRetry_loop S c n d i out tr = (Inl (SfdxError out), tr)"
  by (simp add: executeAdbCommandWithRetry_loop.simps)

lemma loop_always_failing:
  assumes fail: "\<forall>t. hasErrorMarker (allOutputOf (run S (t @ [Exec c])))"
  shows "k = nat (n + 1 - i) \<Longrightarrow>
         executeAdbCommandWithRetry_loop S c n d i out tr =
           (Inl (SfdxError (if i \<le> n then allOutputOf (run S (tr @ attempts c d k)) else out)),
            tr @ attempts c d k)"
proof (induction k arbitrary: i out tr)
  case 0
  then have "\<not> i \<le> n" by simp
  then show ?case by (simp add: loop_exhausted)
next
  case (Suc k)
  then have le: "i \<le> n" by simp
  have mark: "hasErrorMarker (allOutputOf (run S (tr @ [Exec c])))" using fail by simp
  show ?case
  proof (cases "i < n")
    case True
    then obtain j where j: "k = Suc j" using Suc.prems by (cases k) auto
    have "k = nat (n + 1 - (i + 1))" using Suc.prems by simp
    from Suc.IH [OF this, of "allOutputOf (run S (tr @ [Exec c]))" "tr @ [Exec c, Delay d]"]
    show ?thesis using True le mark j by (simp add: loop_retries)
  next
    case False
    then have eq: "i = n" using le by simp
    then have k0: "k = 0" using Suc.prems by simp
    have "k = nat (n + 1 - (i + 1))" using Suc.prems by simp
    from Suc.IH [OF this, of "allOutputOf (run S (tr @ [Exec c]))" "tr @ [Exec c]"]
    show ?thesis using eq mark k0 by (simp add: loop_retries)
  qed
qed

lemma isExec_attempts: "length (filter isExec (attempts c d k)) = k"
  by (induction c d k rule: attempts.induct) (simp_all add: isExec_def)

text \<open>
  C1, as the code has it. When every attempt of the command reports the error marker, the
  command is attempted \<open>numRetries + 1\<close> times (not at all when \<open>numRetries\<close> is negative), with
  the delay between two attempts, and the call rejects with an \<^verbatim>\<open>SfdxError\<close> whose message is
  the output of the last attempt: its error text, its error stream and its output stream.
\<close>

theorem executeAdbCommandWithRetry_exhausted:
  assumes "\<forall>t. hasErrorMarker (allOutputOf (run S (t @ [Exec (adbCmd S portNumber command)])))"
  shows "snd (executeAdbCommandWithRetry S command portNumber numRetries retryDelay tr) =
           tr @ attempts (adbCmd S portNumber command) retryDelay (nat (numRetries + 1))
         \<and> length (filter isExec (attempts (adbCmd S portNumber command) retryDelay
                                    (nat (numRetries + 1)))) = nat (numRetries + 1)
         \<and> fst (executeAdbCommandWithRetry S command portNumber numRetries retryDelay tr) =
             Inl (SfdxError
                   (if 0 \<le> numRetries
                    then allOutputOf (run S (snd (executeAdbCommandWithRetry S command portNumber
                                                   numRetries retryDelay tr)))
                    else []))"
  using loop_always_failing [OF assms, of "nat (numRetries + 1)" numRetries 0 retryDelay "[]" tr]
  by (simp add: executeAdbCommandWithRetry_def isExec_attempts)

lemma flaky_cmd: "adbCmd flaky 5554 ''root'' = ''adb -s emulator-5554 root''"
  by (simp add: adbCmd_def flaky_def exampleSys_def toString.simps digitChar_def)

text \<open>
  C1 as stated fails: the error carries the output of the last attempt only. With one retry,
  a first attempt that prints \<^verbatim>\<open>error: device offline\<close> and a second one that prints
  \<^verbatim>\<open>error: closed\<close>, the message of the error is the output of the second attempt, in which
  the output of the first does not occur.
\<close>

theorem executeAdbCommandWithRetry_last_output_counterexample:
  "executeAdbCommandWithRetry flaky ''root'' 5554 1 1000 [] =
     (Inl (SfdxError (CHR 0x0A # ''error: closed'')),
      [Exec ''adb -s emulator-5554 root'', Delay 1000, Exec ''adb -s emulator-5554 root''])
   \<and> allOutputOf (run flaky [Exec ''adb -s emulator-5554 root'']) = CHR 0x0A # ''error: device offline''
   \<and> \<not> includesStr (CHR 0x0A # ''error: closed'') ''error: device offline''"
proof -
  have r: "run flaky = replay [ok ''error: device offline'', ok ''error: closed'']"
    by (simp add: flaky_def exampleSys_def)
  have a1: "run flaky [Exec ''adb -s emulator-5554 root''] = ok ''error: device offline''"
    by (simp add: r replay_def isExec_def)
  have a2: "run flaky [Exec ''adb -s emulator-5554 root'', Delay 1000, Exec ''adb -s emulator-5554 root'']
            = ok ''error: closed''"
    by (simp add: r replay_def isExec_def)
  have m1: "hasErrorMarker (CHR 0x0A # ''error: device offline'')"
    by (simp add: hasErrorMarker_def toLowerCase_def lowerChar_def upperLetters_def lowerLetters_def)
  have m2: "hasErrorMarker (CHR 0x0A # ''error: closed'')"
    by (simp add: hasErrorMarker_def toLowerCase_def lowerChar_def upperLetters_def lowerLetters_def)
  have s2: "stdout (attemptResult (ok ''error: closed'')) = ''error: closed''"
    by (simp add: attemptResult_def ok_def)
  have o1: "allOutputOf (ok ''error: device offline'') = CHR 0x0A # ''error: device offline''"
    by (simp add: allOutputOf_def attemptErr_def attemptResult_def ok_def)
  have o2: "allOutputOf (ok ''error: closed'') = CHR 0x0A # ''error: closed''"
    by (simp add: allOutputOf_def attemptErr_def attemptResult_def ok_def)
  have "executeAdbCommandWithRetry flaky ''root'' 5554 1 1000 [] =
     (Inl (SfdxError (CHR 0x0A # ''error: closed'')),
      [Exec ''adb -s emulator-5554 root'', Delay 1000, Exec ''adb -s emulator-5554 root''])"
    unfolding executeAdbCommandWithRetry_def flaky_cmd
    apply (subst executeAdbCommandWithRetry_loop.simps)
    apply (simp add: a1 m1 o1)
    apply (subst executeAdbCommandWithRetry_loop.simps)
    apply (simp add: a2 m2 o2)
    apply (subst executeAdbCommandWithRetry_loop.simps)
    apply simp
    done
  moreover have "\<not> includesStr (CHR 0x0A # ''error: closed'') ''error: device offline''"
    by simp
  ultimately show ?thesis by (simp add: a1 o1)
qed


lemma failing_cmd: "adbCmd failing 5554 ''root'' = ''adb -s emulator-5554 root''"
  by (simp add: adbCmd_def failing_def exampleSys_def toString.simps digitChar_def)

lemma failing_run: "run failing (t @ [Exec ''adb -s emulator-5554 root'']) = ok ''error: closed''"
  by (simp add: failing_def exampleSys_def answers_def)

lemma failing_marker: "hasErrorMarker (allOutputOf (ok ''error: closed''))"
  by (simp add: hasErrorMarker_def allOutputOf_def attemptErr_def attemptResult_def ok_def
      toLowerCase_def lowerChar_def upperLetters_def lowerLetters_def)

theorem executeAdbCommandWithRetry_exhausted_witness:
  "executeAdbCommandWithRetry failing ''root'' 5554 2 1000 [] =
     (Inl (SfdxError (CHR 0x0A # ''error: closed'')),
      [Exec ''adb -s emulator-5554 root'', Delay 1000, Exec ''adb -s emulator-5554 root'',
       Delay 1000, Exec ''adb -s emulator-5554 root''])"
proof -
  have always: "\<forall>t. hasErrorMarker (allOutputOf (run failing (t @ [Exec (adbCmd failing 5554 ''root'')])))"
    by (simp add: failing_cmd failing_run failing_marker)
  have three: "attempts c d 3 = [Exec c, Delay d, Exec c, Delay d, Exec c]" for c d
    by (simp add: eval_nat_numeral)
  have last: "run failing [Exec ''adb -s emulator-5554 root'', Delay 1000, Exec ''adb -s emulator-5554 root'',
       Delay 1000, Exec ''adb -s emulator-5554 root''] = ok ''error: closed''"
    using failing_run [of "[Exec ''adb -s emulator-5554 root'', Delay 1000, Exec ''adb -s emulator-5554 root'',
       Delay 1000]"] by simp
  have out: "allOutputOf (ok ''error: closed'') = CHR 0x0A # ''error: closed''"
    by (simp add: allOutputOf_def attemptErr_def attemptResult_def ok_def)
  show ?thesis
    using executeAdbCommandWithRetry_exhausted [OF always, of 2 1000 "[]"]
    by (simp add: three failing_cmd last out prod_eq_iff)
qed

subsection \<open>The error marker\<close>

lemma startsWith_prefix: "startsWith s p = prefix p s"
  by (induction s p rule: startsWith.induct) auto

lemma includesStr_sublist: "includesStr s sub = sublist sub s"
  by (induction s) (auto simp: startsWith_prefix sublist_Cons_right)

lemma sublist_across:
  assumes "sep \<notin> set sub" and "sub \<noteq> []"
  shows "sublist sub (a @ sep # b) = (sublist sub a \<or> sublist sub b)"
proof -
  have p: "\<not> prefix sub (sep # b)"
    using assms by (cases sub) auto
  have "(\<exists>xs1 xs2. sub = xs1 @ xs2 \<and> suffix xs1 a \<and> prefix xs2 (sep # b)) \<longrightarrow> sublist sub a"
  proof (intro impI, elim exE conjE)
    fix xs1 xs2
    assume s: "sub = xs1 @ xs2" and sf: "suffix xs1 a" and pf: "prefix xs2 (sep # b)"
    have "xs2 = []"
    proof (cases xs2)
      case Nil
      then show ?thesis .
    next
      case (Cons x xs)
      then have "x = sep" using pf by simp
      then show ?thesis using assms(1) s Cons by simp
    qed
    then show "sublist sub a" using s sf by simp
  qed
  then show ?thesis
    using p by (auto simp: sublist_append sublist_Cons_right)
qed

lemma lower_newline: "lowerChar (CHR 0x0A) = CHR 0x0A"
  by (simp add: lowerChar_def upperLetters_def lowerLetters_def)

lemma marker_across:
  "includesStr (toLowerCase (a @ CHR 0x0A # b)) ''error:'' =
     (includesStr (toLowerCase a) ''error:'' \<or> includesStr (toLowerCase b) ''error:'')"
  using sublist_across [of "CHR 0x0A" "''error:''" "toLowerCase a" "toLowerCase b"]
  by (simp add: includesStr_sublist toLowerCase_def lower_newline)

lemma marker_empty: "\<not> includesStr (toLowerCase []) ''error:''"
  by (simp add: toLowerCase_def)

lemma marker_after_newline:
  "includesStr (toLowerCase (CHR 0x0A # b)) ''error:'' = includesStr (toLowerCase b) ''error:''"
  using marker_across [of "[]" b] by (simp add: marker_empty)

lemma hasErrorMarker_streams:
  "hasErrorMarker (allOutputOf a) =
     (includesStr (toLowerCase (attemptErr a)) ''error:''
      \<or> includesStr (toLowerCase (stderr (attemptResult a))) ''error:''
      \<or> includesStr (toLowerCase (stdout (attemptResult a))) ''error:'')"
proof -
  have ne: "includesStr (toLowerCase x) ''error:'' \<Longrightarrow> x \<noteq> []" for x
    using marker_empty by auto
  have e: "\<not> includesStr (toLowerCase x) ''error:''" if "x = []" for x
    using that marker_empty by simp
  show ?thesis
    unfolding hasErrorMarker_def allOutputOf_def
    using ne [of "attemptErr a @ (if stderr (attemptResult a) \<noteq> [] then CHR 0x0A # stderr (attemptResult a) else [])
     @ (if stdout (attemptResult a) \<noteq> [] then CHR 0x0A # stdout (attemptResult a) else [])"]
    by (auto simp: marker_across marker_empty dest: e)
qed


text \<open>
  C2, as the code has it. The buffer of an attempt is the error text followed by the error
  stream and the output stream, each non-empty stream after a line feed. The attempt fails
  if and only if the buffer contains \<^verbatim>\<open>error:\<close> in any letter case, which is the case if and
  only if the error text, the error stream or the output stream contains it. An attempt
  without the marker ends the call, which resolves with the output stream of that attempt
  (empty when the command rejected); an attempt with the marker is followed by a delay and
  the next attempt, or by the rejection of the call when no retry is left.
\<close>

theorem attempt_failure_marker:
  "hasErrorMarker (allOutputOf a) =
     (includesStr (toLowerCase (attemptErr a)) ''error:''
      \<or> includesStr (toLowerCase (stderr (attemptResult a))) ''error:''
      \<or> includesStr (toLowerCase (stdout (attemptResult a))) ''error:'')
   \<and> (i \<le> numRetries \<and> \<not> hasErrorMarker (allOutputOf (run S (tr @ [Exec adbCommand]))) \<longrightarrow>
        executeAdbCommandWithRetry_loop S adbCommand numRetries retryDelay i allOutput tr =
          (Inr (stdout (attemptResult (run S (tr @ [Exec adbCommand])))), tr @ [Exec adbCommand]))
   \<and> (i \<le> numRetries \<and> hasErrorMarker (allOutputOf (run S (tr @ [Exec adbCommand]))) \<longrightarrow>
        executeAdbCommandWithRetry_loop S adbCommand numRetries retryDelay i allOutput tr =
          (if i < numRetries
           then executeAdbCommandWithRetry_loop S adbCommand numRetries retryDelay (i + 1)
                  (allOutputOf (run S (tr @ [Exec adbCommand])))
                  (tr @ [Exec adbCommand, Delay retryDelay])
           else (Inl (SfdxError (allOutputOf (run S (tr @ [Exec adbCommand])))),
                 tr @ [Exec adbCommand])))"
proof -
  have "executeAdbCommandWithRetry_loop S adbCommand numRetries retryDelay (numRetries + 1) out t
        = (Inl (SfdxError out), t)" for out t
    by (simp add: loop_exhausted)
  then show ?thesis
    using hasErrorMarker_streams [of a] loop_succeeds [of i numRetries S tr adbCommand]
          loop_retries [of i numRetries S tr adbCommand retryDelay allOutput]
    by auto
qed

lemma rooted_cmd: "adbCmd rooted 5554 ''root'' = ''adb -s emulator-5554 root''"
  by (simp add: adbCmd_def rooted_def exampleSys_def toString.simps digitChar_def)

lemma rooted_run: "run rooted [Exec ''adb -s emulator-5554 root''] = ok ''restarting adbd as root''"
  by (simp add: rooted_def exampleSys_def answers_def)

lemma rooted_marker: "\<not> hasErrorMarker (allOutputOf (ok ''restarting adbd as root''))"
  by (simp add: hasErrorMarker_def allOutputOf_def attemptErr_def attemptResult_def ok_def
      toLowerCase_def lowerChar_def upperLetters_def lowerLetters_def)

theorem attempt_failure_marker_witness:
  "executeAdbCommandWithRetry rooted ''root'' 5554 0 1000 [] =
     (Inr ''restarting adbd as root'', [Exec ''adb -s emulator-5554 root''])
   \<and> executeAdbCommandWithRetry failing ''root'' 5554 0 1000 [] =
     (Inl (SfdxError (CHR 0x0A # ''error: closed'')), [Exec ''adb -s emulator-5554 root''])"
proof -
  have out: "allOutputOf (ok ''error: closed'') = CHR 0x0A # ''error: closed''"
    by (simp add: allOutputOf_def attemptErr_def attemptResult_def ok_def)
  have std: "stdout (attemptResult (ok ''restarting adbd as root'')) = ''restarting adbd as root''"
    by (simp add: attemptResult_def ok_def)
  have mark: "hasErrorMarker (CHR 0x0A # ''error: closed'')"
    using failing_marker by (simp add: out)
  show ?thesis
    using attempt_failure_marker
            [of "ok []" 0 0 rooted "[]" "''adb -s emulator-5554 root''" 1000 "[]"]
          attempt_failure_marker
            [of "ok []" 0 0 failing "[]" "''adb -s emulator-5554 root''" 1000 "[]"]
          failing_run [of "[]"]
    by (simp add: executeAdbCommandWithRetry_def rooted_cmd failing_cmd rooted_run rooted_marker
          mark out std)
qed

lemma split_cmd: "adbCmd splitSys 5554 ''root'' = ''adb -s emulator-5554 root''"
  by (simp add: adbCmd_def splitSys_def exampleSys_def toString.simps digitChar_def)

text \<open>
  C2 as stated fails for the plain concatenation of the three texts: when the error stream
  ends with \<^verbatim>\<open>err\<close> and the output stream starts with \<^verbatim>\<open>or:\<close>, the concatenation contains the
  marker, the buffer of the code does not, and the call succeeds.
\<close>

theorem attempt_failure_concatenation_counterexample:
  "run splitSys [Exec ''adb -s emulator-5554 root''] =
     Resolved \<lparr>stdout = ''or: device offline'', stderr = ''fatal err''\<rparr>
   \<and> includesStr (toLowerCase ([] @ ''fatal err'' @ ''or: device offline'')) ''error:''
   \<and> executeAdbCommandWithRetry splitSys ''root'' 5554 0 1000 [] =
       (Inr ''or: device offline'', [Exec ''adb -s emulator-5554 root''])"
proof -
  have r: "run splitSys [Exec ''adb -s emulator-5554 root''] =
     Resolved \<lparr>stdout = ''or: device offline'', stderr = ''fatal err''\<rparr>"
    by (simp add: splitSys_def exampleSys_def answers_def)
  have m: "\<not> hasErrorMarker (allOutputOf (Resolved \<lparr>stdout = ''or: device offline'', stderr = ''fatal err''\<rparr>))"
    by (simp add: hasErrorMarker_def allOutputOf_def attemptErr_def attemptResult_def
        toLowerCase_def lowerChar_def upperLetters_def lowerLetters_def)
  have c: "includesStr (toLowerCase ([] @ ''fatal err'' @ ''or: device offline'')) ''error:''"
    by (simp add: toLowerCase_def lowerChar_def upperLetters_def lowerLetters_def)
  have "executeAdbCommandWithRetry splitSys ''root'' 5554 0 1000 [] =
       (Inr ''or: device offline'', [Exec ''adb -s emulator-5554 root''])"
    unfolding executeAdbCommandWithRetry_def split_cmd
    by (subst executeAdbCommandWithRetry_loop.simps) (simp add: r m attemptResult_def)
  then show ?thesis using r c by simp
qed



section \<open>The life cycle of an emulator\<close>

subsection \<open>Events\<close>

lemma emitsI: "(\<And>tr. \<exists>ext. snd (f tr) = tr @ ext \<and> list_all P ext) \<Longrightarrow> emits P f"
  by (simp add: emits_def)

lemma emitsD: "emits P f \<Longrightarrow> \<exists>ext. snd (f tr) = tr @ ext \<and> list_all P ext"
  by (simp add: emits_def)

lemma emits_resolve: "emits P (resolve x)"
  by (simp add: emits_def resolve_def)

lemma emits_reject: "emits P (reject e)"
  by (simp add: emits_def reject_def)

lemma emits_andThen:
  assumes "emits P p" and "\<And>x. emits P (g x)"
  shows "emits P (andThen p g)"
proof (rule emitsI)
  fix tr
  obtain ext where ext: "snd (p tr) = tr @ ext" "list_all P ext"
    using emitsD [OF assms(1)] by blast
  show "\<exists>ext. snd (andThen p g tr) = tr @ ext \<and> list_all P ext"
  proof (cases "p tr")
    case (Pair r tr')
    then have tr': "tr' = tr @ ext" using ext by simp
    show ?thesis
    proof (cases r)
      case (Inl e)
      then show ?thesis using Pair ext by (simp add: andThen_def)
    next
      case (Inr x)
      obtain ext' where "snd (g x tr') = tr' @ ext'" "list_all P ext'"
        using emitsD [OF assms(2)] by blast
      then show ?thesis using Pair Inr tr' ext by (simp add: andThen_def)
    qed
  qed
qed

lemma emits_orElse:
  assumes "emits P p" and "\<And>e. emits P (h e)"
  shows "emits P (orElse p h)"
proof (rule emitsI)
  fix tr
  obtain ext where ext: "snd (p tr) = tr @ ext" "list_all P ext"
    using emitsD [OF assms(1)] by blast
  show "\<exists>ext. snd (orElse p h tr) = tr @ ext \<and> list_all P ext"
  proof (cases "p tr")
    case (Pair r tr')
    then have tr': "tr' = tr @ ext" using ext by simp
    show ?thesis
    proof (cases r)
      case (Inr x)
      then show ?thesis using Pair ext by (simp add: orElse_def)
    next
      case (Inl e)
      obtain ext' where "snd (h e tr') = tr' @ ext'" "list_all P ext'"
        using emitsD [OF assms(2)] by blast
      then show ?thesis using Pair Inl tr' ext by (simp add: orElse_def)
    qed
  qed
qed

lemma emits_executeCommandAsync: "P (Exec c) \<Longrightarrow> emits P (executeCommandAsync S c)"
  by (simp add: emits_def executeCommandAsync_def Let_def split: cmd_result.splits)

lemma emits_readFile: "P (ReadFile f) \<Longrightarrow> emits P (readFile S f)"
  by (simp add: emits_def readFile_def Let_def split: option.splits)

lemma emits_delay: "P (Delay d) \<Longrightarrow> emits P (delay d)"
  by (simp add: emits_def delay_def)

lemma emits_spawn: "P (Spawn c) \<Longrightarrow> emits P (spawn c)"
  by (simp add: emits_def spawn_def)

lemma emits_promiseWithTimeout:
  assumes "emits P p"
  shows "emits P (promiseWithTimeout S t p e)"
proof (rule emitsI)
  fix tr
  obtain ext where "snd (p tr) = tr @ ext" "list_all P ext"
    using emitsD [OF assms] by blast
  then show "\<exists>ext. snd (promiseWithTimeout S t p e tr) = tr @ ext \<and> list_all P ext"
    by (cases "p tr") (simp add: promiseWithTimeout_def)
qed

lemma loop_appends:
  "P (Exec c) \<Longrightarrow> P (Delay d) \<Longrightarrow>
   \<exists>ext. snd (executeAdbCommandWithRetry_loop S c n d i out tr) = tr @ ext \<and> list_all P ext"
proof (induction S c n d i out tr rule: executeAdbCommandWithRetry_loop.induct)
  case (1 S c n d i out tr)
  show ?case
  proof (cases "i \<le> n \<and> hasErrorMarker (allOutputOf (run S (tr @ [Exec c])))")
    case True
    then obtain ext where
      "snd (executeAdbCommandWithRetry_loop S c n d (i + 1) (allOutputOf (run S (tr @ [Exec c])))
             (if i < n then tr @ [Exec c] @ [Delay d] else tr @ [Exec c]))
       = (if i < n then tr @ [Exec c] @ [Delay d] else tr @ [Exec c]) @ ext" "list_all P ext"
      using "1.IH" "1.prems" by blast
    then show ?thesis
      using True "1.prems"
      by (subst executeAdbCommandWithRetry_loop.simps) (auto split: if_splits)
  next
    case False
    then show ?thesis
      using "1.prems" by (subst executeAdbCommandWithRetry_loop.simps) auto
  qed
qed

lemma emits_executeAdbCommandWithRetry:
  "P (Exec (adbCmd S p c)) \<Longrightarrow> P (Delay d) \<Longrightarrow> emits P (executeAdbCommandWithRetry S c p n d)"
  unfolding executeAdbCommandWithRetry_def by (rule emitsI) (rule loop_appends)

lemma executeAdbCommand_once:
  "executeAdbCommand S c p tr =
     (if hasErrorMarker (allOutputOf (run S (tr @ [Exec (adbCmd S p c)])))
      then (Inl (SfdxError (allOutputOf (run S (tr @ [Exec (adbCmd S p c)])))),
            tr @ [Exec (adbCmd S p c)])
      else (Inr (stdout (attemptResult (run S (tr @ [Exec (adbCmd S p c)])))),
            tr @ [Exec (adbCmd S p c)]))"
  unfolding executeAdbCommand_def executeAdbCommandWithRetry_def
  apply (subst executeAdbCommandWithRetry_loop.simps)
  apply (subst executeAdbCommandWithRetry_loop.simps)
  apply simp
  done

lemma emits_executeAdbCommand: "P (Exec (adbCmd S p c)) \<Longrightarrow> emits P (executeAdbCommand S c p)"
  by (simp add: emits_def executeAdbCommand_once)

lemma last_adbCmd: "c \<noteq> [] \<Longrightarrow> last (adbCmd S p c) = last c"
  by (simp add: adbCmd_def)


subsection \<open>The commands of the life cycle\<close>

lemma lastCharNot_simps:
  "lastCharNot ch (Exec c) = (last c \<noteq> ch)"
  "lastCharNot ch (Spawn c) = True"
  "lastCharNot ch (Delay d) = True"
  "lastCharNot ch (ReadFile f) = True"
  "lastCharNot ch (WriteFile f x) = True"
  by (simp_all add: lastCharNot_def)

lemma emits_getAllCurrentlyUsedAdbPorts:
  "ch \<noteq> CHR ''s'' \<Longrightarrow> emits (lastCharNot ch) (getAllCurrentlyUsedAdbPorts S)"
  unfolding getAllCurrentlyUsedAdbPorts_def
  by (intro emits_andThen emits_executeCommandAsync emits_resolve)
     (auto simp: lastCharNot_simps)

lemma emits_getNextAvailableAdbPort:
  "ch \<noteq> CHR ''s'' \<Longrightarrow> emits (lastCharNot ch) (getNextAvailableAdbPort S)"
  unfolding getNextAvailableAdbPort_def
  by (intro emits_andThen emits_getAllCurrentlyUsedAdbPorts emits_resolve)

lemma emits_fetchEmulatorNameFromPort:
  "ch \<noteq> CHR ''e'' \<Longrightarrow> emits (lastCharNot ch) (fetchEmulatorNameFromPort S p)"
  unfolding fetchEmulatorNameFromPort_def
  by (intro emits_andThen emits_executeAdbCommand emits_resolve)
     (auto simp: lastCharNot_simps last_adbCmd)

lemma emits_emulatorHasPort_loop:
  "ch \<noteq> CHR ''e'' \<Longrightarrow> emits (lastCharNot ch) (emulatorHasPort_loop S n ports)"
proof (induction ports)
  case Nil
  then show ?case by (simp add: emits_resolve)
next
  case (Cons p ports)
  then show ?case
    by (auto intro!: emits_andThen emits_fetchEmulatorNameFromPort emits_resolve)
qed

lemma emits_emulatorHasPort:
  "ch \<noteq> CHR ''e'' \<Longrightarrow> ch \<noteq> CHR ''s'' \<Longrightarrow> emits (lastCharNot ch) (emulatorHasPort S n)"
  unfolding emulatorHasPort_def
  by (intro emits_orElse emits_andThen emits_getAllCurrentlyUsedAdbPorts
        emits_emulatorHasPort_loop emits_resolve)

lemma emits_resolveEmulatorImage:
  "ch \<noteq> CHR ''s'' \<Longrightarrow> emits (lastCharNot ch) (resolveEmulatorImage S n)"
  unfolding resolveEmulatorImage_def
  by (intro emits_orElse emits_andThen emits_executeCommandAsync emits_resolve)
     (auto simp: lastCharNot_simps)

lemma emits_isEmulatorSystemWritable:
  "ch \<noteq> CHR ''h'' \<Longrightarrow> emits (lastCharNot ch) (isEmulatorSystemWritable S p)"
  unfolding isEmulatorSystemWritable_def Let_def
  by (intro emits_orElse emits_andThen emits_executeAdbCommand emits_readFile emits_resolve)
     (auto simp: lastCharNot_simps last_adbCmd)

lemma emits_waitUntilDeviceIsReady:
  "ch \<noteq> CHR 0x22 \<Longrightarrow> ch \<noteq> CHR 0x27 \<Longrightarrow> emits (lastCharNot ch) (waitUntilDeviceIsReady S p)"
  unfolding waitUntilDeviceIsReady_def Let_def
  by (intro emits_andThen emits_promiseWithTimeout emits_executeAdbCommand emits_resolve)
     (auto simp: lastCharNot_simps adbCmd_def)

lemma emits_waitUntilDeviceIsPoweredOff:
  "ch \<noteq> CHR 0x22 \<Longrightarrow> ch \<noteq> CHR '';'' \<Longrightarrow> emits (lastCharNot ch) (waitUntilDeviceIsPoweredOff S p)"
  unfolding waitUntilDeviceIsPoweredOff_def Let_def
  by (intro emits_andThen emits_promiseWithTimeout emits_executeCommandAsync emits_delay)
     (auto simp: lastCharNot_simps)

lemma emits_stopEmulator:
  "ch \<noteq> CHR 0x22 \<Longrightarrow> ch \<noteq> CHR '';'' \<Longrightarrow> ch \<noteq> CHR ''p'' \<Longrightarrow>
   emits (lastCharNot ch) (stopEmulator S p w)"
  unfolding stopEmulator_def
  by (intro emits_andThen emits_executeAdbCommand)
     (auto simp: lastCharNot_simps last_adbCmd emits_resolve emits_waitUntilDeviceIsPoweredOff)

lemma emits_launchEmulator:
  "ch \<noteq> CHR 0x22 \<Longrightarrow> ch \<noteq> CHR 0x27 \<Longrightarrow> emits (lastCharNot ch) (launchEmulator S n p w b)"
  unfolding launchEmulator_def
  by (intro emits_andThen emits_spawn)
     (auto simp: lastCharNot_simps emits_resolve emits_waitUntilDeviceIsReady)

lemma emits_startEmulator:
  assumes "ch \<notin> set [CHR 0x22, CHR 0x27, CHR '';'', CHR ''p'', CHR ''h'', CHR ''e'', CHR ''s'']"
  shows "emits (lastCharNot ch) (startEmulator S n w b)"
  unfolding startEmulator_def
  using assms
  by (auto intro!: emits_andThen emits_resolveEmulatorImage emits_reject emits_emulatorHasPort
        emits_getNextAvailableAdbPort emits_resolve emits_isEmulatorSystemWritable
        emits_stopEmulator emits_launchEmulator
      split: option.splits)


subsection \<open>Quiescent worlds\<close>

lemma uniformI: "(\<And>tr. f tr = (r, tr @ ext)) \<Longrightarrow> uniform f"
  by (auto simp: uniform_def)

lemma uniform_resolve: "uniform (resolve x)"
  by (rule uniformI [of _ "Inr x" "[]"]) (simp add: resolve_def)

lemma uniform_reject: "uniform (reject e)"
  by (rule uniformI [of _ "Inl e" "[]"]) (simp add: reject_def)

lemma uniform_andThen:
  assumes "uniform p" and "\<And>x. uniform (g x)"
  shows "uniform (andThen p g)"
proof -
  obtain r ext where p: "\<And>tr. p tr = (r, tr @ ext)"
    using assms(1) by (auto simp: uniform_def)
  show ?thesis
  proof (cases r)
    case (Inl e)
    show ?thesis
      by (rule uniformI [of _ "Inl e" ext]) (simp add: andThen_def p Inl)
  next
    case (Inr x)
    obtain r' ext' where g: "\<And>tr. g x tr = (r', tr @ ext')"
      using assms(2) [of x] by (auto simp: uniform_def)
    show ?thesis
      by (rule uniformI [of _ r' "ext @ ext'"]) (simp add: andThen_def p Inr g)
  qed
qed

lemma uniform_orElse:
  assumes "uniform p" and "\<And>e. uniform (h e)"
  shows "uniform (orElse p h)"
proof -
  obtain r ext where p: "\<And>tr. p tr = (r, tr @ ext)"
    using assms(1) by (auto simp: uniform_def)
  show ?thesis
  proof (cases r)
    case (Inr x)
    show ?thesis
      by (rule uniformI [of _ "Inr x" ext]) (simp add: orElse_def p Inr)
  next
    case (Inl e)
    obtain r' ext' where h: "\<And>tr. h e tr = (r', tr @ ext')"
      using assms(2) [of e] by (auto simp: uniform_def)
    show ?thesis
      by (rule uniformI [of _ r' "ext @ ext'"]) (simp add: orElse_def p Inl h)
  qed
qed

lemma quiescent_run: "quiescent S \<Longrightarrow> run S (tr @ [e]) = run S [e]"
  using quiescent_def [of S] by (metis append_Nil)

lemma quiescent_read: "quiescent S \<Longrightarrow> readFileSync S (tr @ [e]) = readFileSync S [e]"
  using quiescent_def [of S] by (metis append_Nil)

lemma uniform_executeCommandAsync: "quiescent S \<Longrightarrow> uniform (executeCommandAsync S c)"
  by (rule uniformI [of _ "case run S [Exec c] of Rejected e \<Rightarrow> Inl (CommandError e) | Resolved r \<Rightarrow> Inr r" "[Exec c]"])
     (simp add: executeCommandAsync_def Let_def quiescent_run split: cmd_result.splits)

lemma uniform_readFile: "quiescent S \<Longrightarrow> uniform (readFile S f)"
  by (rule uniformI [of _ "case readFileSync S [ReadFile f] of None \<Rightarrow> Inl (FileError f) | Some c \<Rightarrow> Inr c" "[ReadFile f]"])
     (simp add: readFile_def Let_def quiescent_read split: option.splits)

lemma uniform_executeAdbCommand: "quiescent S \<Longrightarrow> uniform (executeAdbCommand S c p)"
  by (rule uniformI [of _ "if hasErrorMarker (allOutputOf (run S [Exec (adbCmd S p c)]))
        then Inl (SfdxError (allOutputOf (run S [Exec (adbCmd S p c)])))
        else Inr (stdout (attemptResult (run S [Exec (adbCmd S p c)])))" "[Exec (adbCmd S p c)]"])
     (simp add: executeAdbCommand_once quiescent_run)

lemma uniform_getAllCurrentlyUsedAdbPorts:
  "quiescent S \<Longrightarrow> uniform (getAllCurrentlyUsedAdbPorts S)"
  unfolding getAllCurrentlyUsedAdbPorts_def
  by (intro uniform_andThen uniform_executeCommandAsync uniform_resolve)

lemma uniform_fetchEmulatorNameFromPort:
  "quiescent S \<Longrightarrow> uniform (fetchEmulatorNameFromPort S p)"
  unfolding fetchEmulatorNameFromPort_def
  by (intro uniform_andThen uniform_executeAdbCommand uniform_resolve)

lemma uniform_emulatorHasPort_loop:
  "quiescent S \<Longrightarrow> uniform (emulatorHasPort_loop S n ports)"
proof (induction ports)
  case Nil
  then show ?case by (simp add: uniform_resolve)
next
  case (Cons p ports)
  then show ?case
    by (auto intro!: uniform_andThen uniform_fetchEmulatorNameFromPort uniform_resolve)
qed

lemma uniform_emulatorHasPort: "quiescent S \<Longrightarrow> uniform (emulatorHasPort S n)"
  unfolding emulatorHasPort_def
  by (intro uniform_orElse uniform_andThen uniform_getAllCurrentlyUsedAdbPorts
        uniform_emulatorHasPort_loop uniform_resolve)

lemma uniform_resolveEmulatorImage: "quiescent S \<Longrightarrow> uniform (resolveEmulatorImage S n)"
  unfolding resolveEmulatorImage_def
  by (intro uniform_orElse uniform_andThen uniform_executeCommandAsync uniform_resolve)

lemma uniform_isEmulatorSystemWritable: "quiescent S \<Longrightarrow> uniform (isEmulatorSystemWritable S p)"
  unfolding isEmulatorSystemWritable_def Let_def
  by (intro uniform_orElse uniform_andThen uniform_executeAdbCommand uniform_readFile
        uniform_resolve)

lemma uniform_again:
  assumes "uniform f" and "f tr = (r, tr')"
  shows "\<exists>tr''. f t = (r, tr'')"
  using assms by (auto simp: uniform_def)

subsection \<open>An emulator that is running\<close>

lemma startEmulator_running:
  assumes "resolveEmulatorImage S emulatorName tr = (Inr (Some resolved), tr1)"
    and "emulatorHasPort S resolved tr1 = (Inr (Some port), tr2)" and "port \<noteq> 0"
    and "isEmulatorSystemWritable S port tr2 = (Inr isWritable, tr3)"
  shows "startEmulator S emulatorName writable waitForBoot tr =
           (if \<not> writable \<or> isWritable then (Inr port, tr3)
            else andThen (stopEmulator S port True)
                   (\<lambda>r. launchEmulator S resolved port writable waitForBoot) tr3)"
  using assms by (simp add: startEmulator_def andThen_def resolve_def)

lemma emits_noStop:
  assumes "emits (lastCharNot (CHR ''p'')) f" and "f tr = (r, tr')"
  shows "Exec (adbCmd S p ''shell reboot -p'') \<notin> set (drop (length tr) tr')"
proof -
  obtain ext where ext: "snd (f tr) = tr @ ext" "list_all (lastCharNot (CHR ''p'')) ext"
    using emitsD [OF assms(1)] by blast
  have "\<not> lastCharNot (CHR ''p'') (Exec (adbCmd S p ''shell reboot -p''))"
    by (simp add: lastCharNot_def last_adbCmd)
  then have "Exec (adbCmd S p ''shell reboot -p'') \<notin> set ext"
    using ext(2) by (auto simp: list_all_iff)
  then show ?thesis using ext(1) assms(2) by simp
qed

lemma queries_noStop:
  assumes "resolveEmulatorImage S emulatorName tr = (r1, tr1)"
    and "emulatorHasPort S resolved tr1 = (r2, tr2)"
    and "isEmulatorSystemWritable S port tr2 = (r3, tr3)"
  shows "Exec (adbCmd S p ''shell reboot -p'') \<notin> set (drop (length tr) tr3)"
proof -
  obtain e1 where e1: "tr1 = tr @ e1" "list_all (lastCharNot (CHR ''p'')) e1"
    using emitsD [OF emits_resolveEmulatorImage [of "CHR ''p''" S emulatorName], of tr] assms(1) by auto
  obtain e2 where e2: "tr2 = tr1 @ e2" "list_all (lastCharNot (CHR ''p'')) e2"
    using emitsD [OF emits_emulatorHasPort [of "CHR ''p''" S resolved], of tr1] assms(2) by auto
  obtain e3 where e3: "tr3 = tr2 @ e3" "list_all (lastCharNot (CHR ''p'')) e3"
    using emitsD [OF emits_isEmulatorSystemWritable [of "CHR ''p''" S port], of tr2] assms(3) by auto
  have "\<not> lastCharNot (CHR ''p'') (Exec (adbCmd S p ''shell reboot -p''))"
    by (simp add: lastCharNot_def last_adbCmd)
  then have "Exec (adbCmd S p ''shell reboot -p'') \<notin> set (e1 @ e2 @ e3)"
    using e1(2) e2(2) e3(2) by (auto simp: list_all_iff)
  then show ?thesis using e1(1) e2(1) e3(1) by simp
qed

lemma stopEmulator_first:
  "\<exists>rest. snd (stopEmulator S port True tr) = tr @ Exec (adbCmd S port ''shell reboot -p'') # rest"
proof (cases "hasErrorMarker (allOutputOf (run S (tr @ [Exec (adbCmd S port ''shell reboot -p'')])))")
  case True
  then show ?thesis by (simp add: stopEmulator_def andThen_def executeAdbCommand_once)
next
  case False
  obtain ext where "snd (waitUntilDeviceIsPoweredOff S port (tr @ [Exec (adbCmd S port ''shell reboot -p'')]))
                    = (tr @ [Exec (adbCmd S port ''shell reboot -p'')]) @ ext"
    using emitsD [OF emits_waitUntilDeviceIsPoweredOff [of "CHR ''t''" S port],
                  of "tr @ [Exec (adbCmd S port ''shell reboot -p'')]"] by auto
  then show ?thesis using False by (simp add: stopEmulator_def andThen_def executeAdbCommand_once)
qed

lemma launchEmulator_first:
  "\<exists>rest. snd (launchEmulator S n p w b tr) =
            tr @ Spawn (emulatorCommand S @ '' @'' @ n @ '' -port '' @ toString p
                        @ (if w then '' -writable-system'' else [])) # rest"
proof -
  let ?spawned = "tr @ [Spawn (emulatorCommand S @ '' @'' @ n @ '' -port '' @ toString p
                        @ (if w then '' -writable-system'' else []))]"
  have "emits (lastCharNot (CHR ''t''))
          (andThen (if b then waitUntilDeviceIsReady S p else resolve ()) (\<lambda>r. resolve p))"
    by (intro emits_andThen) (simp_all add: emits_resolve emits_waitUntilDeviceIsReady)
  then obtain ext where
    "snd (andThen (if b then waitUntilDeviceIsReady S p else resolve ()) (\<lambda>r. resolve p) ?spawned)
     = ?spawned @ ext"
    using emitsD by blast
  then show ?thesis
    by (simp add: launchEmulator_def andThen_def [of "spawn _"] spawn_def)
qed


subsection \<open>Commands that succeed\<close>

lemma retryDefault_ok:
  assumes "0 \<le> AdbNumRetryAttempts (config S)"
    and "\<forall>t. \<not> hasErrorMarker (allOutputOf (run S t))"
  shows "executeAdbCommandWithRetryDefault S c p tr =
           (Inr (stdout (attemptResult (run S (tr @ [Exec (adbCmd S p c)])))),
            tr @ [Exec (adbCmd S p c)])"
  using assms
  by (simp add: executeAdbCommandWithRetryDefault_def executeAdbCommandWithRetry_def
      executeAdbCommandWithRetry_loop.simps [of S _ _ _ 0])

lemma executeAdbCommand_ok:
  assumes "\<forall>t. \<not> hasErrorMarker (allOutputOf (run S t))"
  shows "executeAdbCommand S c p tr =
           (Inr (stdout (attemptResult (run S (tr @ [Exec (adbCmd S p c)])))),
            tr @ [Exec (adbCmd S p c)])"
  using assms by (simp add: executeAdbCommand_once)

lemma waitUntilDeviceIsReady_ok:
  assumes "\<forall>t. \<not> hasErrorMarker (allOutputOf (run S t))"
    and "\<forall>t. \<not> deadlinePassed S (deviceReadinessWaitTime (config S)) t"
  shows "waitUntilDeviceIsReady S p tr = (Inr (), tr @ [Exec (adbCmd S p (bootCompletedCommand S))])"
  using assms
  by (simp add: waitUntilDeviceIsReady_def Let_def andThen_def promiseWithTimeout_def
      executeAdbCommand_ok resolve_def bootCompletedCommand_def)

lemma rebootEmulator_ok:
  assumes "\<forall>t. \<not> hasErrorMarker (allOutputOf (run S t))"
    and "\<forall>t. \<not> deadlinePassed S (deviceReadinessWaitTime (config S)) t"
  shows "rebootEmulator S p True tr =
           (Inr (), tr @ [Exec (adbCmd S p ''shell reboot''),
                          Exec (adbCmd S p (bootCompletedCommand S))])"
  using assms
  by (simp add: rebootEmulator_def andThen_def executeAdbCommand_ok waitUntilDeviceIsReady_ok)

lemma resolveEmulatorImage_trace:
  "snd (resolveEmulatorImage S n tr) = tr @ [Exec (emulatorCommand S @ '' -list-avds'')]"
  by (simp add: resolveEmulatorImage_def io_defs Let_def split: cmd_result.splits)

lemma resolveEmulatorImage_resolves: "\<exists>r. fst (resolveEmulatorImage S n tr) = Inr r"
  by (simp add: resolveEmulatorImage_def io_defs Let_def split: cmd_result.splits)

lemma fetchEmulator_found_trace:
  assumes "fetchEmulator S n tr = (Inr (Some emulator), tr')"
  shows "\<exists>command.
           fst (getAvdManagerCommand S (tr @ [Exec (emulatorCommand S @ '' -list-avds'')])) = Inr command
           \<and> tr' = tr @ [Exec (emulatorCommand S @ '' -list-avds''),
                          Exec (command @ '' list avd'')]"
proof -
  obtain r t1 where r: "resolveEmulatorImage S n tr = (r, t1)" by (cases "resolveEmulatorImage S n tr")
  then have t1: "t1 = tr @ [Exec (emulatorCommand S @ '' -list-avds'')]"
    using resolveEmulatorImage_trace [of S n tr] by simp
  obtain x where x: "r = Inr x" using resolveEmulatorImage_resolves [of S n tr] r by auto
  show ?thesis
  proof (cases x)
    case None
    then show ?thesis using assms r x by (simp add: fetchEmulator_def andThen_def resolve_def)
  next
    case (Some resolved)
    show ?thesis
    proof (cases "resolved = []")
      case True
      then show ?thesis using assms r x Some by (simp add: fetchEmulator_def andThen_def resolve_def)
    next
      case False
      obtain ds t2 where f: "fetchEmulators S t1 = (ds, t2)" by (cases "fetchEmulators S t1")
      have found: "ds = Inr found \<Longrightarrow> tr' = t2" for found
        using assms r x Some False f
        by (auto simp: fetchEmulator_def andThen_def resolve_def split: sum.splits)
      have res: "\<exists>found. ds = Inr found"
        using assms r x Some False f
        by (cases ds) (auto simp: fetchEmulator_def andThen_def resolve_def)
      show ?thesis
      proof (cases "fst (getAvdManagerCommand S t1)")
        case (Inl e)
        then show ?thesis using fetchEmulators_path_thrown [OF Inl] f res by auto
      next
        case (Inr command)
        then have "t2 = t1 @ [Exec (command @ '' list avd'')]"
          using fetchEmulators_trace [OF Inr] f by simp
        then show ?thesis using Inr res found t1 by auto
      qed
    qed
  qed
qed

lemma not_reboot_last: "last c \<noteq> CHR ''t'' \<Longrightarrow> c \<noteq> adbCmd S p ''shell reboot''"
  using last_adbCmd [of "''shell reboot''" S p] by auto

lemma not_reboot_root: "adbCmd S q ''root'' \<noteq> adbCmd S p ''shell reboot''"
proof
  assume "adbCmd S q ''root'' = adbCmd S p ''shell reboot''"
  then have "take 4 (rev (adbCmd S q ''root'')) = take 4 (rev (adbCmd S p ''shell reboot''))"
    by simp
  then show False by (simp add: adbCmd_def)
qed

lemma not_reboot_remount: "adbCmd S q ''remount'' \<noteq> adbCmd S p ''shell reboot''"
proof
  assume "adbCmd S q ''remount'' = adbCmd S p ''shell reboot''"
  then have "take 4 (rev (adbCmd S q ''remount'')) = take 4 (rev (adbCmd S p ''shell reboot''))"
    by simp
  then show False by (simp add: adbCmd_def)
qed

subsection \<open>The example device\<close>

lemma device_simps:
  "run (deviceSys v y l) = answers (deviceCommands v y)"
  "readFileSync (deviceSys v y l) = fixedFiles [(''/avd/Pixel_XL.avd/emu-launch-params.txt'', l)]"
  "adbShellCommand (deviceSys v y l) = ''adb''"
  "emulatorCommand (deviceSys v y l) = ''emulator''"
  "avdManagerCommand (deviceSys v y l) = ''avdmanager''"
  "getAvdManagerCommand (deviceSys v y l) tr = (Inr ''avdmanager'', tr)"
  "windows (deviceSys v y l) = False"
  "config (deviceSys v y l) = exampleConfig"
  "versionFrom (deviceSys v y l) = dottedVersion"
  "parseRawString (deviceSys v y l) = (\<lambda>s. Inr [pixelXL])"
  "pathJoin (deviceSys v y l) = (\<lambda>parts. concat (map (\<lambda>p. CHR ''/'' # p) parts))"
  "deadlinePassed (deviceSys v y l) = (\<lambda>t tr. False)"
  by (simp_all add: deviceSys_def exampleSys_def getAvdManagerCommand_def resolve_def)

lemma device_adbCmd: "adbCmd (deviceSys v y l) 5554 c = ''adb -s emulator-5554 '' @ c"
  by (simp add: adbCmd_def device_simps toString.simps digitChar_def)

lemma device_quiescent: "quiescent (deviceSys v y l)"
  by (simp add: quiescent_def device_simps answers_def fixedFiles_def)

lemma answer: "answers table (t @ [Exec c]) = (case map_of table c of None \<Rightarrow> Rejected [] | Some r \<Rightarrow> r)"
  by (simp add: answers_def)

lemma device_resolve:
  "resolveEmulatorImage (deviceSys v y l) ''Pixel XL'' tr =
     (Inr (Some ''Pixel_XL''), tr @ [Exec ''emulator -list-avds''])"
  by (simp add: resolveEmulatorImage_def io_defs device_simps answer deviceCommands_def ok_def js_defs)

lemma device_ports:
  "getAllCurrentlyUsedAdbPorts (deviceSys v y l) tr = (Inr [5554], tr @ [Exec ''adb devices''])"
  by (simp add: getAllCurrentlyUsedAdbPorts_def io_defs device_simps answer deviceCommands_def ok_def js_defs)

lemma marker_ok: "hasErrorMarker (allOutputOf (ok s)) = includesStr (toLowerCase s) ''error:''"
  by (simp add: hasErrorMarker_streams attemptErr_def attemptResult_def ok_def marker_empty)

lemma answers_in_table:
  "answers table t = Rejected [] \<or> (\<exists>c. (c, answers table t) \<in> set table)"
  by (auto simp: answers_def split: event.splits option.splits dest: map_of_SomeD)

lemma no_marker_rejected: "\<not> hasErrorMarker (allOutputOf (Rejected []))"
  by (simp add: hasErrorMarker_def allOutputOf_def attemptErr_def attemptResult_def)

lemma device_no_marker:
  assumes "\<not> includesStr (toLowerCase v) ''error:''" and "\<not> includesStr (toLowerCase y) ''error:''"
  shows "\<not> hasErrorMarker (allOutputOf (run (deviceSys v y l) t))"
proof -
  have "\<forall>(c, r) \<in> set (deviceCommands v y). \<not> hasErrorMarker (allOutputOf r)"
    using assms by (simp add: deviceCommands_def marker_ok toLowerCase_def lowerChar_def upperLetters_def lowerLetters_def)
  then show ?thesis
    using answers_in_table [of "deviceCommands v y" t] no_marker_rejected
    by (auto simp: device_simps)
qed

lemma device_all_ok:
  assumes "\<not> includesStr (toLowerCase v) ''error:''" and "\<not> includesStr (toLowerCase y) ''error:''"
  shows "\<forall>t. \<not> hasErrorMarker (allOutputOf (run (deviceSys v y l) t))"
  using device_no_marker [OF assms] by simp

lemma device_stdout:
  "stdout (attemptResult (run (deviceSys v y l) (tr @ [Exec c]))) =
     (case map_of (deviceCommands v y) c of None \<Rightarrow> [] | Some r \<Rightarrow> stdout (attemptResult r))"
  by (simp add: device_simps answer attemptResult_def split: option.splits)

lemma attemptResult_ok: "stdout (attemptResult (ok s)) = s"
  by (simp add: attemptResult_def ok_def)

lemma device_name_out:
  "stdout (attemptResult (run (deviceSys v y l) (tr @ [Exec ''adb -s emulator-5554 emu avd name''])))
   = ''Pixel_XL'' @ [CHR 0x0D, CHR 0x0A] @ ''OK''"
  by (simp add: device_stdout deviceCommands_def attemptResult_ok)

lemma device_path_out:
  "stdout (attemptResult (run (deviceSys v y l) (tr @ [Exec ''adb -s emulator-5554 emu avd path''])))
   = ''avd/Pixel_XL.avd'' @ [CHR 0x0A] @ ''OK''"
  by (simp add: device_stdout deviceCommands_def attemptResult_ok)

lemma device_name:
  assumes "\<not> includesStr (toLowerCase v) ''error:''" and "\<not> includesStr (toLowerCase y) ''error:''"
  shows "fetchEmulatorNameFromPort (deviceSys v y l) 5554 tr =
     (Inr ''Pixel_XL'', tr @ [Exec ''adb -s emulator-5554 emu avd name''])"
proof -
  have "firstLine (''Pixel_XL'' @ [CHR 0x0D, CHR 0x0A] @ ''OK'') = ''Pixel_XL''"
    by (simp add: js_defs)
  then show ?thesis
    unfolding fetchEmulatorNameFromPort_def andThen_def
      executeAdbCommand_ok [OF device_all_ok [OF assms]] device_adbCmd
    by (simp add: device_name_out resolve_def)
qed

lemma device_hasPort:
  assumes "\<not> includesStr (toLowerCase v) ''error:''" and "\<not> includesStr (toLowerCase y) ''error:''"
  shows "emulatorHasPort (deviceSys v y l) ''Pixel_XL'' tr =
     (Inr (Some 5554), tr @ [Exec ''adb devices'', Exec ''adb -s emulator-5554 emu avd name''])"
  by (simp add: emulatorHasPort_def orElse_def andThen_def device_ports device_name [OF assms] resolve_def)

lemma device_param_file:
  "readFileSync (deviceSys v y l) (tr @ [ReadFile ''/avd/Pixel_XL.avd/emu-launch-params.txt''])
   = Some l"
  by (simp add: device_simps fixedFiles_def)

lemma device_writable:
  assumes "\<not> includesStr (toLowerCase v) ''error:''" and "\<not> includesStr (toLowerCase y) ''error:''"
  shows "isEmulatorSystemWritable (deviceSys v y l) 5554 tr =
     (Inr (includesStr l ''-writable-system''),
      tr @ [Exec ''adb -s emulator-5554 emu avd path'',
                      ReadFile ''/avd/Pixel_XL.avd/emu-launch-params.txt''])"
proof -
  have line: "firstLine (''avd/Pixel_XL.avd'' @ [CHR 0x0A] @ ''OK'') = ''avd/Pixel_XL.avd''"
    by (simp add: js_defs)
  have join: "pathJoin (deviceSys v y l) [''avd/Pixel_XL.avd'', ''emu-launch-params.txt'']
              = ''/avd/Pixel_XL.avd/emu-launch-params.txt''"
    by (simp add: device_simps)
  show ?thesis
    unfolding isEmulatorSystemWritable_def andThen_def orElse_def
      executeAdbCommand_ok [OF device_all_ok [OF assms]] device_adbCmd
    using device_param_file [of v y l "tr @ [Exec ''adb -s emulator-5554 emu avd path'']"]
    by (simp add: device_path_out line [simplified] join Let_def readFile_def resolve_def andThen_def)
qed

lemma disabled_no_marker: "\<not> includesStr (toLowerCase ''disabled'') ''error:''"
  by (simp add: toLowerCase_def lowerChar_def upperLetters_def lowerLetters_def)


subsection \<open>Starting an emulator that is running\<close>

text \<open>
  C6. Let the name resolve to a device that is found running on a port, and let the check
  of the launch parameters answer \<open>isWritable\<close>. When no writable system is asked for, or
  the system is writable, \<^verbatim>\<open>startEmulator\<close> returns that port after the three queries, and
  no power-off command \<^verbatim>\<open>shell reboot -p\<close> is among the events; in a quiescent world a
  second call right after the first returns the same port, again with no power-off command.
  When a writable system is asked for and the system is not writable, the emulator is
  stopped, the power-off command being the next event, and launched again when the stop
  succeeded.
\<close>

theorem startEmulator_idempotent:
  assumes "resolveEmulatorImage S emulatorName tr = (Inr (Some resolved), tr1)"
    and "emulatorHasPort S resolved tr1 = (Inr (Some port), tr2)" and "port \<noteq> 0"
    and "isEmulatorSystemWritable S port tr2 = (Inr isWritable, tr3)"
  shows "(\<not> writable \<or> isWritable \<longrightarrow>
            startEmulator S emulatorName writable waitForBoot tr = (Inr port, tr3)
            \<and> (\<forall>p. Exec (adbCmd S p ''shell reboot -p'') \<notin> set (drop (length tr) tr3))
            \<and> (quiescent S \<longrightarrow>
                 (\<exists>tr4. startEmulator S emulatorName writable waitForBoot tr3 = (Inr port, tr4)
                        \<and> (\<forall>p. Exec (adbCmd S p ''shell reboot -p'')
                                 \<notin> set (drop (length tr3) tr4)))))
         \<and> (writable \<and> \<not> isWritable \<longrightarrow>
            startEmulator S emulatorName writable waitForBoot tr =
              (case stopEmulator S port True tr3 of
                 (Inl e, tr4) \<Rightarrow> (Inl e, tr4)
               | (Inr u, tr4) \<Rightarrow> launchEmulator S resolved port True waitForBoot tr4)
            \<and> (\<exists>rest. snd (stopEmulator S port True tr3) =
                         tr3 @ Exec (adbCmd S port ''shell reboot -p'') # rest))"
proof -
  note first = startEmulator_running [OF assms, of writable waitForBoot]
  have nostop: "\<forall>p. Exec (adbCmd S p ''shell reboot -p'') \<notin> set (drop (length tr) tr3)"
    using queries_noStop [OF assms(1,2,4)] by simp
  have again: "\<exists>tr4. startEmulator S emulatorName writable waitForBoot tr3 = (Inr port, tr4)
                  \<and> (\<forall>p. Exec (adbCmd S p ''shell reboot -p'') \<notin> set (drop (length tr3) tr4))"
    if q: "quiescent S" and fast: "\<not> writable \<or> isWritable"
  proof -
    obtain t1 where t1: "resolveEmulatorImage S emulatorName tr3 = (Inr (Some resolved), t1)"
      using uniform_again [OF uniform_resolveEmulatorImage [OF q] assms(1)] by blast
    obtain t2 where t2: "emulatorHasPort S resolved t1 = (Inr (Some port), t2)"
      using uniform_again [OF uniform_emulatorHasPort [OF q] assms(2)] by blast
    obtain t3 where t3: "isEmulatorSystemWritable S port t2 = (Inr isWritable, t3)"
      using uniform_again [OF uniform_isEmulatorSystemWritable [OF q] assms(4)] by blast
    have "startEmulator S emulatorName writable waitForBoot tr3 = (Inr port, t3)"
      using startEmulator_running [OF t1 t2 assms(3) t3, of writable waitForBoot] fast by auto
    moreover have "\<forall>p. Exec (adbCmd S p ''shell reboot -p'') \<notin> set (drop (length tr3) t3)"
      using queries_noStop [OF t1 t2 t3] by simp
    ultimately show ?thesis by blast
  qed
  have mismatch: "startEmulator S emulatorName writable waitForBoot tr =
              (case stopEmulator S port True tr3 of
                 (Inl e, tr4) \<Rightarrow> (Inl e, tr4)
               | (Inr u, tr4) \<Rightarrow> launchEmulator S resolved port True waitForBoot tr4)"
    if "writable \<and> \<not> isWritable"
    using first that by (simp add: andThen_def)
  show ?thesis
    using first nostop again mismatch stopEmulator_first [of S port tr3] by auto
qed

lemma writable_params: "includesStr ''-port 5554 -writable-system'' ''-writable-system''"
  by simp

lemma plain_params: "\<not> includesStr ''-port 5554'' ''-writable-system''"
  by simp

lemma device_stop:
  assumes "\<not> includesStr (toLowerCase v) ''error:''" and "\<not> includesStr (toLowerCase y) ''error:''"
  shows "stopEmulator (deviceSys v y l) 5554 True tr =
     (Inr (), tr @ [Exec ''adb -s emulator-5554 shell reboot -p'',
                    Exec (''while ['' @ ''[ -n $(adb devices | grep emulator-5554) ]''
                          @ '']; do sleep 1; done;''),
                    Delay 5000])"
proof -
  have id: "deviceId 5554 = ''emulator-5554''"
    by (simp add: deviceId_def toString.simps digitChar_def)
  have off: "run (deviceSys v y l)
               (t @ [Exec (''while ['' @ ''[ -n $(adb devices | grep emulator-5554) ]''
                           @ '']; do sleep 1; done;'')]) = ok []" for t
    by (simp add: device_simps answer deviceCommands_def)
  show ?thesis
    unfolding stopEmulator_def andThen_def
      executeAdbCommand_ok [OF device_all_ok [OF assms]] device_adbCmd
    using off [of "tr @ [Exec ''adb -s emulator-5554 shell reboot -p'']"]
    by (simp add: waitUntilDeviceIsPoweredOff_def Let_def andThen_def promiseWithTimeout_def
        executeCommandAsync_def device_simps id ok_def delay_def)
qed

lemma device_launch:
  assumes "\<not> includesStr (toLowerCase v) ''error:''" and "\<not> includesStr (toLowerCase y) ''error:''"
  shows "launchEmulator (deviceSys v y l) ''Pixel_XL'' 5554 True True tr =
     (Inr 5554, tr @ [Spawn ''emulator @Pixel_XL -port 5554 -writable-system'',
                      Exec (''adb -s emulator-5554 wait-for-device shell '' @ [CHR 0x27]
                            @ ''while ['' @ ''[ -z $(getprop sys.boot_completed) ]''
                            @ '']; do sleep 1; done;'' @ [CHR 0x27])])"
proof -
  have port: "toString 5554 = ''5554''"
    by (simp add: toString.simps digitChar_def)
  have timely: "\<forall>t. \<not> deadlinePassed (deviceSys v y l)
                        (deviceReadinessWaitTime (config (deviceSys v y l))) t"
    by (simp add: device_simps)
  show ?thesis
    by (simp add: launchEmulator_def andThen_def spawn_def resolve_def port
        waitUntilDeviceIsReady_ok [OF device_all_ok [OF assms] timely] device_adbCmd
        bootCompletedCommand_def device_simps)
qed

theorem startEmulator_idempotent_witness:
  "startEmulator (deviceSys ''disabled'' ''disabled'' ''-port 5554 -writable-system'') ''Pixel XL''
     True True [] =
     (Inr 5554,
      [Exec ''emulator -list-avds'', Exec ''adb devices'', Exec ''adb -s emulator-5554 emu avd name'',
       Exec ''adb -s emulator-5554 emu avd path'',
       ReadFile ''/avd/Pixel_XL.avd/emu-launch-params.txt''])
   \<and> (\<exists>tr4. startEmulator (deviceSys ''disabled'' ''disabled'' ''-port 5554 -writable-system'')
               ''Pixel XL'' True True
               [Exec ''emulator -list-avds'', Exec ''adb devices'',
                Exec ''adb -s emulator-5554 emu avd name'',
                Exec ''adb -s emulator-5554 emu avd path'',
                ReadFile ''/avd/Pixel_XL.avd/emu-launch-params.txt''] = (Inr 5554, tr4))
   \<and> startEmulator (deviceSys ''disabled'' ''disabled'' ''-port 5554'') ''Pixel XL'' True True [] =
     (Inr 5554,
      [Exec ''emulator -list-avds'', Exec ''adb devices'', Exec ''adb -s emulator-5554 emu avd name'',
       Exec ''adb -s emulator-5554 emu avd path'',
       ReadFile ''/avd/Pixel_XL.avd/emu-launch-params.txt'',
       Exec ''adb -s emulator-5554 shell reboot -p'',
       Exec (''while ['' @ ''[ -n $(adb devices | grep emulator-5554) ]''
             @ '']; do sleep 1; done;''),
       Delay 5000,
       Spawn ''emulator @Pixel_XL -port 5554 -writable-system'',
       Exec (''adb -s emulator-5554 wait-for-device shell '' @ [CHR 0x27]
             @ ''while ['' @ ''[ -z $(getprop sys.boot_completed) ]''
             @ '']; do sleep 1; done;'' @ [CHR 0x27])])"
proof -
  note d = disabled_no_marker
  note fast = startEmulator_idempotent
          [OF device_resolve [of "''disabled''" "''disabled''" "''-port 5554 -writable-system''" "[]"]
              device_hasPort [where l = "''-port 5554 -writable-system''"
                 and tr = "[] @ [Exec ''emulator -list-avds'']", OF d d] _
              device_writable [where l = "''-port 5554 -writable-system''"
                 and tr = "([] @ [Exec ''emulator -list-avds''])
                           @ [Exec ''adb devices'', Exec ''adb -s emulator-5554 emu avd name'']",
                 OF d d],
           of True True]
  note slow = startEmulator_idempotent
          [OF device_resolve [of "''disabled''" "''disabled''" "''-port 5554''" "[]"]
              device_hasPort [where l = "''-port 5554''"
                 and tr = "[] @ [Exec ''emulator -list-avds'']", OF d d] _
              device_writable [where l = "''-port 5554''"
                 and tr = "([] @ [Exec ''emulator -list-avds''])
                           @ [Exec ''adb devices'', Exec ''adb -s emulator-5554 emu avd name'']",
                 OF d d],
           of True True]
  have one: "startEmulator (deviceSys ''disabled'' ''disabled'' ''-port 5554 -writable-system'')
               ''Pixel XL'' True True [] =
     (Inr 5554,
      [Exec ''emulator -list-avds'', Exec ''adb devices'', Exec ''adb -s emulator-5554 emu avd name'',
       Exec ''adb -s emulator-5554 emu avd path'',
       ReadFile ''/avd/Pixel_XL.avd/emu-launch-params.txt''])
   \<and> (\<exists>tr4. startEmulator (deviceSys ''disabled'' ''disabled'' ''-port 5554 -writable-system'')
               ''Pixel XL'' True True
               [Exec ''emulator -list-avds'', Exec ''adb devices'',
                Exec ''adb -s emulator-5554 emu avd name'',
                Exec ''adb -s emulator-5554 emu avd path'',
                ReadFile ''/avd/Pixel_XL.avd/emu-launch-params.txt''] = (Inr 5554, tr4))"
    using fast device_quiescent [of "''disabled''" "''disabled''" "''-port 5554 -writable-system''"]
          writable_params
    by auto
  have two: "startEmulator (deviceSys ''disabled'' ''disabled'' ''-port 5554'') ''Pixel XL'' True True [] =
     (Inr 5554,
      [Exec ''emulator -list-avds'', Exec ''adb devices'', Exec ''adb -s emulator-5554 emu avd name'',
       Exec ''adb -s emulator-5554 emu avd path'',
       ReadFile ''/avd/Pixel_XL.avd/emu-launch-params.txt'',
       Exec ''adb -s emulator-5554 shell reboot -p'',
       Exec (''while ['' @ ''[ -n $(adb devices | grep emulator-5554) ]''
             @ '']; do sleep 1; done;''),
       Delay 5000,
       Spawn ''emulator @Pixel_XL -port 5554 -writable-system'',
       Exec (''adb -s emulator-5554 wait-for-device shell '' @ [CHR 0x27]
             @ ''while ['' @ ''[ -z $(getprop sys.boot_completed) ]''
             @ '']; do sleep 1; done;'' @ [CHR 0x27])])"
    using slow plain_params
    by (simp add: device_stop [OF d d] device_launch [OF d d])
  show ?thesis using one two by simp
qed

subsection \<open>Mounting the system writable\<close>

lemma enabled_no_marker: "\<not> includesStr (toLowerCase ''enabled'') ''error:''"
  by (simp add: toLowerCase_def lowerChar_def upperLetters_def lowerLetters_def)

lemma device_start:
  assumes "\<not> includesStr (toLowerCase v) ''error:''" and "\<not> includesStr (toLowerCase y) ''error:''"
    and "includesStr l ''-writable-system''"
  shows "startEmulator (deviceSys v y l) ''Pixel XL'' True True [] =
     (Inr 5554,
      [Exec ''emulator -list-avds'', Exec ''adb devices'', Exec ''adb -s emulator-5554 emu avd name'',
       Exec ''adb -s emulator-5554 emu avd path'',
       ReadFile ''/avd/Pixel_XL.avd/emu-launch-params.txt''])"
  using startEmulator_running
          [OF device_resolve [of v y l "[]"]
              device_hasPort [where l = l and tr = "[] @ [Exec ''emulator -list-avds'']",
                              OF assms(1,2)] _
              device_writable [where l = l
                 and tr = "([] @ [Exec ''emulator -list-avds''])
                           @ [Exec ''adb devices'', Exec ''adb -s emulator-5554 emu avd name'']",
                 OF assms(1,2)],
           of True True]
        assms(3)
  by simp

lemma device_fetchEmulators:
  "fetchEmulators (deviceSys v y l) tr = (Inr [pixelXL], tr @ [Exec ''avdmanager list avd''])"
  by (simp add: fetchEmulators_def io_defs device_simps answer deviceCommands_def ok_def)

lemma device_fetch:
  "fetchEmulator (deviceSys v y l) ''Pixel XL'' tr =
     (Inr (Some pixelXL), tr @ [Exec ''emulator -list-avds'', Exec ''avdmanager list avd''])"
  by (simp add: fetchEmulator_def andThen_def device_resolve device_fetchEmulators resolve_def
      pixelXL_def)

lemma device_29: "versionFrom (deviceSys v y l) ''29'' = Inr (apiVersion 29)"
  by (simp add: device_simps dottedVersion_def js_defs apiVersion_def)

lemma pixelXL_newer: "sameOrNewer (apiLevel pixelXL) (apiVersion 29)"
  by (simp add: pixelXL_def apiVersion_def sameOrNewer_def compare_def compareNat_def)

lemma device_retries: "0 \<le> AdbNumRetryAttempts (config (deviceSys v y l))"
  by (simp add: device_simps exampleConfig_def)

lemma device_deadline:
  "\<forall>t. \<not> deadlinePassed (deviceSys v y l) (deviceReadinessWaitTime (config (deviceSys v y l))) t"
  by (simp add: device_simps)

lemma device_verification:
  "stdout (attemptResult (run (deviceSys v y l)
     (tr @ [Exec (adbCmd (deviceSys v y l) 5554 ''shell avbctl get-verification'')]))) = v"
  by (simp add: device_adbCmd device_stdout deviceCommands_def attemptResult_ok)

lemma device_verity:
  "stdout (attemptResult (run (deviceSys v y l)
     (tr @ [Exec (adbCmd (deviceSys v y l) 5554 ''shell avbctl get-verification''),
            Exec (adbCmd (deviceSys v y l) 5554 ''shell avbctl get-verity'')]))) = y"
  using device_stdout [of v y l "tr @ [Exec (adbCmd (deviceSys v y l) 5554 ''shell avbctl get-verification'')]"
                          "adbCmd (deviceSys v y l) 5554 ''shell avbctl get-verity''"]
  by (simp add: device_adbCmd deviceCommands_def attemptResult_ok)

lemma device_boot:
  "bootCompletedCommand (deviceSys v y l) =
     ''wait-for-device shell '' @ [CHR 0x27]
     @ ''while ['' @ ''[ -z $(getprop sys.boot_completed) ]'' @ '']; do sleep 1; done;''
     @ [CHR 0x27]"
  by (simp add: bootCompletedCommand_def device_simps)


text \<open>
  C5. Let every command succeed at its first attempt and in time, let \<^verbatim>\<open>startEmulator\<close>
  return a port, and let the device be found with an API level that is same or newer than 29.
  After the start, \<^verbatim>\<open>mountAsRootWritableSystem\<close> runs \<^verbatim>\<open>root\<close> and looks the device up, with
  the listing command of the emulator and the AVD manager command that
  \<^verbatim>\<open>getAvdManagerCommand\<close> returns.
  When the answers to \<^verbatim>\<open>get-verification\<close> and \<^verbatim>\<open>get-verity\<close> both contain \<^verbatim>\<open>disabled\<close>, the
  remaining commands are the two queries and \<^verbatim>\<open>remount\<close>, and no \<^verbatim>\<open>shell reboot\<close> command
  is among the events of the whole call. When neither answer contains \<^verbatim>\<open>disabled\<close>, the
  remaining commands are the two queries, \<^verbatim>\<open>disable-verification\<close>, \<^verbatim>\<open>disable-verity\<close>,
  \<^verbatim>\<open>shell reboot\<close>, the wait for the boot, \<^verbatim>\<open>root\<close> and \<^verbatim>\<open>remount\<close>. Both times the call
  resolves with the port of the device.
\<close>

theorem mountAsRootWritableSystem_steps:
  assumes "0 \<le> AdbNumRetryAttempts (config S)"
    and "\<forall>t. \<not> hasErrorMarker (allOutputOf (run S t))"
    and "\<forall>t. \<not> deadlinePassed S (deviceReadinessWaitTime (config S)) t"
    and "startEmulator S emulatorName True True tr = (Inr port, tr1)"
    and "fetchEmulator S emulatorName (tr1 @ [Exec (adbCmd S port ''root'')]) = (Inr (Some emulator), tr2)"
    and "versionFrom S ''29'' = Inr v29"
    and "sameOrNewer (apiLevel emulator) v29"
  shows
    "(\<exists>command.
        fst (getAvdManagerCommand S
               (tr1 @ [Exec (adbCmd S port ''root''), Exec (emulatorCommand S @ '' -list-avds'')])) =
          Inr command
        \<and> tr2 = tr1 @ [Exec (adbCmd S port ''root''), Exec (emulatorCommand S @ '' -list-avds''),
                        Exec (command @ '' list avd'')])
     \<and> (includesStr (stdout (attemptResult (run S
            (tr2 @ [Exec (adbCmd S port ''shell avbctl get-verification'')])))) ''disabled''
        \<and> includesStr (stdout (attemptResult (run S
            (tr2 @ [Exec (adbCmd S port ''shell avbctl get-verification''),
                    Exec (adbCmd S port ''shell avbctl get-verity'')])))) ''disabled''
        \<longrightarrow> mountAsRootWritableSystem S emulatorName tr =
              (Inr port,
               tr2 @ [Exec (adbCmd S port ''shell avbctl get-verification''),
                      Exec (adbCmd S port ''shell avbctl get-verity''),
                      Exec (adbCmd S port ''remount'')])
            \<and> (\<forall>p. Exec (adbCmd S p ''shell reboot'')
                     \<notin> set (drop (length tr)
                               (snd (mountAsRootWritableSystem S emulatorName tr)))))
     \<and> (\<not> includesStr (stdout (attemptResult (run S
            (tr2 @ [Exec (adbCmd S port ''shell avbctl get-verification'')])))) ''disabled''
        \<and> \<not> includesStr (stdout (attemptResult (run S
            (tr2 @ [Exec (adbCmd S port ''shell avbctl get-verification''),
                    Exec (adbCmd S port ''shell avbctl get-verity'')])))) ''disabled''
        \<longrightarrow> mountAsRootWritableSystem S emulatorName tr =
              (Inr port,
               tr2 @ [Exec (adbCmd S port ''shell avbctl get-verification''),
                      Exec (adbCmd S port ''shell avbctl get-verity''),
                      Exec (adbCmd S port ''shell avbctl disable-verification''),
                      Exec (adbCmd S port ''disable-verity''),
                      Exec (adbCmd S port ''shell reboot''),
                      Exec (adbCmd S port (bootCompletedCommand S)),
                      Exec (adbCmd S port ''root''),
                      Exec (adbCmd S port ''remount'')]))"
proof -
  note ok = retryDefault_ok [OF assms(1,2)]
  obtain command where
    command: "fst (getAvdManagerCommand S
                (tr1 @ [Exec (adbCmd S port ''root''), Exec (emulatorCommand S @ '' -list-avds'')])) =
              Inr command"
    and tr2: "tr2 = tr1 @ [Exec (adbCmd S port ''root''), Exec (emulatorCommand S @ '' -list-avds''),
                  Exec (command @ '' list avd'')]"
    using fetchEmulator_found_trace [OF assms(5)] by auto
  have A: "mountAsRootWritableSystem S emulatorName tr =
              (Inr port,
               tr2 @ [Exec (adbCmd S port ''shell avbctl get-verification''),
                      Exec (adbCmd S port ''shell avbctl get-verity''),
                      Exec (adbCmd S port ''remount'')])"
    if "includesStr (stdout (attemptResult (run S
            (tr2 @ [Exec (adbCmd S port ''shell avbctl get-verification'')])))) ''disabled''"
      and "includesStr (stdout (attemptResult (run S
            (tr2 @ [Exec (adbCmd S port ''shell avbctl get-verification''),
                    Exec (adbCmd S port ''shell avbctl get-verity'')])))) ''disabled''"
    using assms(4,5,6,7) that
    by (simp add: mountAsRootWritableSystem_def andThen_def ok resolve_def Let_def)
  have B: "mountAsRootWritableSystem S emulatorName tr =
              (Inr port,
               tr2 @ [Exec (adbCmd S port ''shell avbctl get-verification''),
                      Exec (adbCmd S port ''shell avbctl get-verity''),
                      Exec (adbCmd S port ''shell avbctl disable-verification''),
                      Exec (adbCmd S port ''disable-verity''),
                      Exec (adbCmd S port ''shell reboot''),
                      Exec (adbCmd S port (bootCompletedCommand S)),
                      Exec (adbCmd S port ''root''),
                      Exec (adbCmd S port ''remount'')])"
    if "\<not> includesStr (stdout (attemptResult (run S
            (tr2 @ [Exec (adbCmd S port ''shell avbctl get-verification'')])))) ''disabled''"
      and "\<not> includesStr (stdout (attemptResult (run S
            (tr2 @ [Exec (adbCmd S port ''shell avbctl get-verification''),
                    Exec (adbCmd S port ''shell avbctl get-verity'')])))) ''disabled''"
    using assms(4,5,6,7) that
    by (simp add: mountAsRootWritableSystem_def andThen_def ok resolve_def Let_def
        rebootEmulator_ok [OF assms(2,3)])
  have noreboot: "\<forall>p. Exec (adbCmd S p ''shell reboot'')
                     \<notin> set (drop (length tr) (tr2 @ [Exec (adbCmd S port ''shell avbctl get-verification''),
                      Exec (adbCmd S port ''shell avbctl get-verity''),
                      Exec (adbCmd S port ''remount'')]))"
  proof -
    obtain ext where ext: "tr1 = tr @ ext" "list_all (lastCharNot (CHR ''t'')) ext"
      using emitsD [OF emits_startEmulator [of "CHR ''t''" S emulatorName True True], of tr] assms(4)
      by auto
    have r: "\<not> lastCharNot (CHR ''t'') (Exec (adbCmd S p ''shell reboot''))" for p
      by (simp add: lastCharNot_def last_adbCmd)
    have "Exec (adbCmd S p ''shell reboot'') \<notin> set ext" for p
      using ext(2) r [of p] unfolding list_all_iff by blast
    moreover have "Exec (adbCmd S p ''shell reboot'')
                   \<notin> set [Exec (adbCmd S port ''root''), Exec (emulatorCommand S @ '' -list-avds''),
                           Exec (command @ '' list avd''),
                           Exec (adbCmd S port ''shell avbctl get-verification''),
                           Exec (adbCmd S port ''shell avbctl get-verity''),
                           Exec (adbCmd S port ''remount'')]" for p
      using not_reboot_root [of S port p] not_reboot_remount [of S port p]
            not_reboot_last [of "emulatorCommand S @ '' -list-avds''" S p]
            not_reboot_last [of "command @ '' list avd''" S p]
            not_reboot_last [of "adbCmd S port ''shell avbctl get-verification''" S p]
            not_reboot_last [of "adbCmd S port ''shell avbctl get-verity''" S p]
      by (auto simp: last_adbCmd)
    ultimately have "Exec (adbCmd S p ''shell reboot'') \<notin> set (ext @ [Exec (adbCmd S port ''root''), Exec (emulatorCommand S @ '' -list-avds''),
                  Exec (command @ '' list avd''),
                  Exec (adbCmd S port ''shell avbctl get-verification''),
                  Exec (adbCmd S port ''shell avbctl get-verity''),
                  Exec (adbCmd S port ''remount'')])" for p
      by simp
    then show ?thesis using ext(1) tr2 by simp
  qed
  show ?thesis using command tr2 A B noreboot by simp
qed

theorem mountAsRootWritableSystem_steps_witness:
  "mountAsRootWritableSystem (deviceSys ''disabled'' ''disabled'' ''-port 5554 -writable-system'') ''Pixel XL'' [] =
     (Inr 5554,
      [Exec ''emulator -list-avds'', Exec ''adb devices'', Exec ''adb -s emulator-5554 emu avd name'',
       Exec ''adb -s emulator-5554 emu avd path'',
       ReadFile ''/avd/Pixel_XL.avd/emu-launch-params.txt'',
       Exec ''adb -s emulator-5554 root'',
       Exec ''emulator -list-avds'', Exec ''avdmanager list avd'',
       Exec ''adb -s emulator-5554 shell avbctl get-verification'',
       Exec ''adb -s emulator-5554 shell avbctl get-verity'',
       Exec ''adb -s emulator-5554 remount''])
   \<and> mountAsRootWritableSystem (deviceSys ''enabled'' ''enabled'' ''-port 5554 -writable-system'') ''Pixel XL'' [] =
     (Inr 5554,
      [Exec ''emulator -list-avds'', Exec ''adb devices'', Exec ''adb -s emulator-5554 emu avd name'',
       Exec ''adb -s emulator-5554 emu avd path'',
       ReadFile ''/avd/Pixel_XL.avd/emu-launch-params.txt'',
       Exec ''adb -s emulator-5554 root'',
       Exec ''emulator -list-avds'', Exec ''avdmanager list avd'',
       Exec ''adb -s emulator-5554 shell avbctl get-verification'',
       Exec ''adb -s emulator-5554 shell avbctl get-verity'',
       Exec ''adb -s emulator-5554 shell avbctl disable-verification'',
       Exec ''adb -s emulator-5554 disable-verity'',
       Exec ''adb -s emulator-5554 shell reboot'',
       Exec (''adb -s emulator-5554 wait-for-device shell '' @ [CHR 0x27]
             @ ''while ['' @ ''[ -z $(getprop sys.boot_completed) ]'' @ '']; do sleep 1; done;''
             @ [CHR 0x27]),
       Exec ''adb -s emulator-5554 root'',
       Exec ''adb -s emulator-5554 remount''])"
proof -
  have d: "includesStr ''disabled'' ''disabled''" and e: "\<not> includesStr ''enabled'' ''disabled''"
    by simp_all
  note A = mountAsRootWritableSystem_steps
      [OF device_retries device_all_ok [OF disabled_no_marker disabled_no_marker] device_deadline
          device_start [OF disabled_no_marker disabled_no_marker writable_params]
          device_fetch device_29
          pixelXL_newer,
       unfolded device_verification device_verity]
  note B = mountAsRootWritableSystem_steps
      [OF device_retries device_all_ok [OF enabled_no_marker enabled_no_marker] device_deadline
          device_start [OF enabled_no_marker enabled_no_marker writable_params]
          device_fetch device_29
          pixelXL_newer,
       unfolded device_verification device_verity]
  show ?thesis
    using A B d e by (simp add: device_adbCmd device_boot)
qed

end
